theory Spec2Isabelle
  imports Complex_Main "HOL-Library.AList" "HOL-Library.Char_ord" "HOL-Library.List_Lexorder"
    "HOL-Library.Multiset"
begin

section \<open>jQuery Websheet: a shallow embedding of jquery.websheet.js\<close>

text \<open>
  The plugin turns a FORM into a controller that builds a URL from the form's fields,
  fetches an HTML TABLE from it, types and sorts the rows, and answers the events
  \<^verbatim>\<open>getState\<close> and \<^verbatim>\<open>setState\<close>. Each handler of the source is a function below; the
  DOM state the handlers share is a record that is passed in and returned.

  A JavaScript string is a HOL \<^typ>\<open>string\<close>, one \<^typ>\<open>char\<close> per code unit. The regular
  expressions of the source only name ASCII characters, so their character classes are
  exact on every string.
\<close>

subsection \<open>JavaScript numbers and values\<close>

text \<open>
  A Number is \<open>NaN\<close>, an infinity, or finite. A finite Number is kept as the rational it
  denotes; \<open>parseFloat\<close> below returns the exact value of the decimal literal it reads,
  of which the JavaScript result is the nearest double.
\<close>

datatype jsnum = NaN | NegInf | Fin rat | PosInf

text \<open>An exception of the runtime. The only one this code can raise is a TypeError.\<close>

datatype error = TypeError

text \<open>
  The binary \<^verbatim>\<open>-\<close> of JavaScript on Numbers. On two finite operands the double result
  can be rounded, but it has the sign of the exact difference and is zero only for equal
  operands, which is all a sort comparator's caller reads.
\<close>

fun js_minus :: "jsnum \<Rightarrow> jsnum \<Rightarrow> jsnum" where
  "js_minus NaN _ = NaN"
| "js_minus _ NaN = NaN"
| "js_minus (Fin a) (Fin b) = Fin (a - b)"
| "js_minus PosInf PosInf = NaN"
| "js_minus NegInf NegInf = NaN"
| "js_minus PosInf _ = PosInf"
| "js_minus NegInf _ = NegInf"
| "js_minus (Fin a) PosInf = NegInf"
| "js_minus (Fin a) NegInf = PosInf"

fun js_gt0 :: "jsnum \<Rightarrow> bool" where
  "js_gt0 (Fin a) = (0 < a)"
| "js_gt0 PosInf = True"
| "js_gt0 _ = False"

fun js_lt0 :: "jsnum \<Rightarrow> bool" where
  "js_lt0 (Fin a) = (a < 0)"
| "js_lt0 NegInf = True"
| "js_lt0 _ = False"

subsection \<open>Character classes of the source's regular expressions\<close>

definition is_digit :: "char \<Rightarrow> bool" where
  "is_digit c = (CHR ''0'' \<le> c \<and> c \<le> CHR ''9'')"

text \<open>\<^verbatim>\<open>[a-zA-Z0-9]\<close>, the complement of \<^verbatim>\<open>nameRegex\<close> and of \<^verbatim>\<open>splitter\<close>.\<close>

definition is_alnum :: "char \<Rightarrow> bool" where
  "is_alnum c = ((CHR ''a'' \<le> c \<and> c \<le> CHR ''z'') \<or> (CHR ''A'' \<le> c \<and> c \<le> CHR ''Z'') \<or> is_digit c)"

text \<open>\<^verbatim>\<open>[0-9\.+\-]\<close>, what \<^verbatim>\<open>stringToFloat\<close> keeps.\<close>

definition is_numeric_char :: "char \<Rightarrow> bool" where
  "is_numeric_char c = (is_digit c \<or> c = CHR ''.'' \<or> c = CHR ''+'' \<or> c = CHR ''-'')"

text \<open>\<^verbatim>\<open>[:+\/#?]\<close>, what \<^verbatim>\<open>valueRegex\<close> removes.\<close>

definition is_value_reserved :: "char \<Rightarrow> bool" where
  "is_value_reserved c = (c \<in> set '':+/#?'')"

text \<open>
  White space and line terminators among the code units below 256: what
  \<^verbatim>\<open>String.prototype.trim\<close> strips and \<^verbatim>\<open>\s\<close> matches (TAB, LF, VT, FF, CR, SP, NBSP).
\<close>

definition is_space :: "char \<Rightarrow> bool" where
  "is_space c = (of_char c \<in> {9::nat, 10, 11, 12, 13, 32, 160})"

definition trim :: "string \<Rightarrow> string" where
  "trim s = rev (dropWhile is_space (rev (dropWhile is_space s)))"

subsection \<open>stringToFloat\<close>

text \<open>
  \<^verbatim>\<open>src.replace(',', '.')\<close>: with a string pattern, \<^verbatim>\<open>replace\<close> rewrites the first
  occurrence only.
\<close>

fun replace_first :: "char \<Rightarrow> char \<Rightarrow> string \<Rightarrow> string" where
  "replace_first a b [] = []"
| "replace_first a b (c # cs) = (if c = a then b # cs else c # replace_first a b cs)"

text \<open>\<^verbatim>\<open>.replace(/[^0-9\.+\-]/g, '')\<close>\<close>

definition strip_non_numeric :: "string \<Rightarrow> string" where
  "strip_non_numeric s = filter is_numeric_char s"

definition digit_val :: "char \<Rightarrow> nat" where
  "digit_val c = of_char c - of_char CHR ''0''"

definition digits_val :: "string \<Rightarrow> nat" where
  "digits_val ds = foldl (\<lambda>a c. 10 * a + digit_val c) 0 ds"

text \<open>
  \<^verbatim>\<open>parseFloat\<close> on a string over \<^verbatim>\<open>[0-9.+-]\<close>, which is all \<^verbatim>\<open>stringToFloat\<close> hands
  it: the longest prefix that is a decimal literal (an optional sign, then digits with
  an optional point and fraction, or a point and at least one digit) is read and the
  rest ignored; when there is no such prefix the result is \<open>NaN\<close>. Such a string holds
  no white space to skip, no exponent and no \<^verbatim>\<open>Infinity\<close>.
\<close>

definition unsigned_literal :: "string \<Rightarrow> rat option" where
  "unsigned_literal s =
     (let ip = takeWhile is_digit s; r = dropWhile is_digit s;
          fp = (case r of c # r' \<Rightarrow> if c = CHR ''.'' then takeWhile is_digit r' else [] | [] \<Rightarrow> [])
      in if ip = [] \<and> fp = [] then None
         else Some (of_nat (digits_val ip) + of_nat (digits_val fp) / 10 ^ length fp))"

definition parseFloat :: "string \<Rightarrow> jsnum" where
  "parseFloat s =
     (case s of
        [] \<Rightarrow> NaN
      | c # r \<Rightarrow>
          if c = CHR ''-'' then (case unsigned_literal r of None \<Rightarrow> NaN | Some q \<Rightarrow> Fin (- q))
          else if c = CHR ''+'' then (case unsigned_literal r of None \<Rightarrow> NaN | Some q \<Rightarrow> Fin q)
          else (case unsigned_literal s of None \<Rightarrow> NaN | Some q \<Rightarrow> Fin q))"

definition stringToFloat :: "string \<Rightarrow> string \<Rightarrow> jsnum" where
  "stringToFloat src lang =
     (if lang = ''fr''
      then parseFloat (strip_non_numeric (replace_first CHR '','' CHR ''.'' src))
      else parseFloat (strip_non_numeric src))"

subsection \<open>Objects used as dictionaries\<close>

text \<open>
  \<^verbatim>\<open>fieldsObj\<close>, \<^verbatim>\<open>last_submit\<close> and the patch of \<^verbatim>\<open>setState\<close> are plain objects with
  string values: an association list of the own properties, in insertion order (the
  order in which \<^verbatim>\<open>$.each\<close> visits names that are not array indices).
\<close>

type_synonym jsobject = "(string \<times> string) list"

text \<open>
  \<^verbatim>\<open>fieldsObj\<close> is created by \<^verbatim>\<open>{}\<close>, so a read of a name it does not own falls through
  to \<^verbatim>\<open>Object.prototype\<close>, whose members are functions (and, for \<^verbatim>\<open>__proto__\<close>, an
  object), never \<^verbatim>\<open>undefined\<close>.
\<close>

definition Object_prototype_names :: "string list" where
  "Object_prototype_names =
     [''constructor'', ''hasOwnProperty'', ''isPrototypeOf'', ''propertyIsEnumerable'',
      ''toLocaleString'', ''toString'', ''valueOf'', ''__proto__'',
      ''__defineGetter__'', ''__defineSetter__'', ''__lookupGetter__'', ''__lookupSetter__'']"

datatype lookup = Undefined | Own string | Inherited

definition obj_get :: "jsobject \<Rightarrow> string \<Rightarrow> lookup" where
  "obj_get obj k =
     (case map_of obj k of
        Some v \<Rightarrow> Own v
      | None \<Rightarrow> if k \<in> set Object_prototype_names then Inherited else Undefined)"

text \<open>
  \<^verbatim>\<open>obj[k] = v\<close> with a string \<open>v\<close>: the own property is overwritten in place or added
  last; assigning a string to \<^verbatim>\<open>__proto__\<close> is ignored.
\<close>

definition obj_set :: "jsobject \<Rightarrow> string \<Rightarrow> string \<Rightarrow> jsobject" where
  "obj_set obj k v = (if k = ''__proto__'' then obj else AList.update k v obj)"

subsection \<open>Class attributes\<close>

text \<open>The class names of a \<^verbatim>\<open>class\<close> attribute: its maximal runs of non-space characters.\<close>

fun class_tokens :: "string \<Rightarrow> string \<Rightarrow> string list" where
  "class_tokens cur [] = (if cur = [] then [] else [rev cur])"
| "class_tokens cur (c # cs) =
     (if is_space c then (if cur = [] then class_tokens [] cs else rev cur # class_tokens [] cs)
      else class_tokens (c # cur) cs)"

definition hasClass :: "string list \<Rightarrow> string \<Rightarrow> bool" where
  "hasClass cls c = (c \<in> set cls)"

text \<open>\<^verbatim>\<open>addClass(value)\<close>: nothing for \<^verbatim>\<open>undefined\<close>, else each missing class name is appended.\<close>

definition addClass :: "string list \<Rightarrow> string option \<Rightarrow> string list" where
  "addClass cls value =
     (case value of
        None \<Rightarrow> cls
      | Some v \<Rightarrow> foldl (\<lambda>acc c. if c \<in> set acc then acc else acc @ [c]) cls (class_tokens [] v))"

definition removeClass :: "string list \<Rightarrow> string list \<Rightarrow> string list" where
  "removeClass cls gone = filter (\<lambda>c. c \<notin> set gone) cls"

subsection \<open>Tables\<close>

text \<open>
  What the markup parser hands over for a TABLE of the fetched document: its class
  names, the markup of its first CAPTION if any, the cells of the first row of its
  THEAD (text and \<^verbatim>\<open>class\<close> attribute; none when the table has no THEAD), and the rows
  of its TBODY (per cell, text and class names).
\<close>

record hcell =
  htext :: string
  hclass :: "string option"

record cell =
  ctext :: string
  cclasses :: "string list"

record html_table =
  f_classes :: "string list"
  f_caption :: "string option"
  f_head :: "hcell list"
  f_body :: "cell list list"

text \<open>A typed value of \<^verbatim>\<open>__data\<close>; \<open>TUndef\<close> is what reading past the end of the array gives.\<close>

datatype tval = TBool bool | TNum jsnum | TDate jsnum | TText string | TUndef

text \<open>
  The table once the success handler has worked on it. A header cell keeps its text, its
  current class names, and the \<^verbatim>\<open>className\<close> its click handler closed over; a body row
  carries its \<^verbatim>\<open>__data\<close>. Every row the plugin sorts was given \<^verbatim>\<open>__data\<close> by the success
  handler.
\<close>

record header =
  label :: string
  hclasses :: "string list"
  className :: "string option"

record row =
  cells :: "cell list"
  rdata :: "tval list"

record table =
  tclasses :: "string list"
  caption :: string
  headers :: "header list"
  tbody :: "row list"

subsection \<open>What the JavaScript runtime supplies\<close>

text \<open>
  Four things are taken as parameters: \<^verbatim>\<open>String.prototype.toUpperCase\<close> (Unicode case
  mapping), \<^verbatim>\<open>Date.parse\<close> as called by \<^verbatim>\<open>new Date(string)\<close> (implementation-defined on
  the \<^verbatim>\<open>Y/M/D\<close> strings it is given; the time value, \<open>NaN\<close> for an invalid date),
  \<^verbatim>\<open>ToNumber\<close> on a string, and the order in which \<^verbatim>\<open>Array.prototype.sort\<close> leaves rows
  when ECMAScript does not fix it (see \<open>js_sort\<close> below). Every theorem that speaks of a
  host \<open>h\<close> holds for all of them.
\<close>

record host =
  toUpperCase :: "string \<Rightarrow> string"
  Date_parse :: "string \<Rightarrow> jsnum"
  StringToNumber :: "string \<Rightarrow> jsnum"
  engine_order :: "(row \<Rightarrow> row \<Rightarrow> error + jsnum) \<Rightarrow> row list \<Rightarrow> row list"

text \<open>\<^verbatim>\<open>ToNumber\<close>, as the operator \<^verbatim>\<open>-\<close> applies it to each operand.\<close>

fun to_number :: "host \<Rightarrow> tval \<Rightarrow> jsnum" where
  "to_number h (TBool b) = Fin (if b then 1 else 0)"
| "to_number h (TNum n) = n"
| "to_number h (TDate t) = t"
| "to_number h (TText s) = StringToNumber h s"
| "to_number h TUndef = NaN"

subsection \<open>sortTable\<close>

text \<open>\<^verbatim>\<open>$(a).prop('__data')[colIndex]\<close>\<close>

definition datum :: "row \<Rightarrow> nat \<Rightarrow> tval" where
  "datum r colIndex = (if colIndex < length (rdata r) then rdata r ! colIndex else TUndef)"

text \<open>The comparator of the cases \<^verbatim>\<open>'bool'\<close>, \<^verbatim>\<open>'number'\<close>, \<^verbatim>\<open>'amount'\<close>, \<^verbatim>\<open>'date'\<close>.\<close>

definition numeric_compare :: "host \<Rightarrow> nat \<Rightarrow> row \<Rightarrow> row \<Rightarrow> error + jsnum" where
  "numeric_compare h colIndex a b =
     Inr (js_minus (to_number h (datum a colIndex)) (to_number h (datum b colIndex)))"

text \<open>
  The comparator of the default case. \<^verbatim>\<open>.toUpperCase()\<close> is a method of strings only: on
  \<^verbatim>\<open>undefined\<close>, a boolean, a Number or a Date the call raises a TypeError. Strings
  compare by code units.
\<close>

definition text_compare :: "host \<Rightarrow> nat \<Rightarrow> row \<Rightarrow> row \<Rightarrow> error + jsnum" where
  "text_compare h colIndex a b =
     (case datum a colIndex of
        TText x \<Rightarrow>
          (case datum b colIndex of
             TText y \<Rightarrow>
               (let as = toUpperCase h x; bs = toUpperCase h y
                in if as > bs then Inr (Fin 1) else if as < bs then Inr (Fin (- 1)) else Inr (Fin 0))
           | _ \<Rightarrow> Inl TypeError)
      | _ \<Rightarrow> Inl TypeError)"

definition numeric_kind :: "string option \<Rightarrow> bool" where
  "numeric_kind sortType =
     (sortType = Some ''bool'' \<or> sortType = Some ''number'' \<or> sortType = Some ''amount'' \<or>
      sortType = Some ''date'')"

definition comparator :: "host \<Rightarrow> nat \<Rightarrow> string option \<Rightarrow> row \<Rightarrow> row \<Rightarrow> error + jsnum" where
  "comparator h colIndex sortType =
     (if numeric_kind sortType then numeric_compare h colIndex else text_compare h colIndex)"

text \<open>
  \<^verbatim>\<open>Array.prototype.sort(comparefn)\<close>. ECMAScript reads a \<open>NaN\<close> from the comparator as
  \<open>+0\<close> and lets an exception of the comparator end the sort. What it says of the
  resulting order depends on the comparator. Its relations between two elements are
  \<open>a <CF b\<close> (the comparator is negative), \<open>a =CF b\<close> (zero) and \<open>a >CF b\<close> (positive); a
  call that raises or returns \<open>NaN\<close> puts the pair in none of them.
\<close>

datatype cf = Before | Same | After

definition CF :: "('a \<Rightarrow> 'a \<Rightarrow> error + jsnum) \<Rightarrow> 'a \<Rightarrow> 'a \<Rightarrow> cf option" where
  "CF cmp a b =
     (case cmp a b of
        Inl e \<Rightarrow> None
      | Inr v \<Rightarrow>
          if v = NaN then None
          else if js_lt0 v then Some Before
          else if js_gt0 v then Some After
          else Some Same)"

text \<open>
  A comparator is a consistent comparison function for the elements of \<open>xs\<close> when every
  call on two of them returns a number that is not \<open>NaN\<close>, \<open>=CF\<close> is reflexive, symmetric
  and transitive, and \<open><CF\<close> and \<open>>CF\<close> are transitive (ECMAScript, Array.prototype.sort).
\<close>

definition consistent_on :: "('a \<Rightarrow> 'a \<Rightarrow> error + jsnum) \<Rightarrow> 'a list \<Rightarrow> bool" where
  "consistent_on cmp xs =
     ((\<forall>a\<in>set xs. \<forall>b\<in>set xs. CF cmp a b \<noteq> None)
      \<and> (\<forall>a\<in>set xs. CF cmp a a = Some Same)
      \<and> (\<forall>a\<in>set xs. \<forall>b\<in>set xs. CF cmp a b = Some Same \<longrightarrow> CF cmp b a = Some Same)
      \<and> (\<forall>a\<in>set xs. \<forall>b\<in>set xs. \<forall>c\<in>set xs.
            CF cmp a b = Some Same \<and> CF cmp b c = Some Same \<longrightarrow> CF cmp a c = Some Same)
      \<and> (\<forall>a\<in>set xs. \<forall>b\<in>set xs. \<forall>c\<in>set xs.
            CF cmp a b = Some Before \<and> CF cmp b c = Some Before \<longrightarrow> CF cmp a c = Some Before)
      \<and> (\<forall>a\<in>set xs. \<forall>b\<in>set xs. \<forall>c\<in>set xs.
            CF cmp a b = Some After \<and> CF cmp b c = Some After \<longrightarrow> CF cmp a c = Some After))"

text \<open>
  For a consistent comparator ECMAScript fixes the result: the elements in ascending
  order, those that compare equal in their original order. The stable insertion sort
  computes it: \<open>x\<close> is moved behind \<open>y\<close> only when the comparator is positive.
\<close>

fun stable_insert :: "('a \<Rightarrow> 'a \<Rightarrow> error + jsnum) \<Rightarrow> 'a \<Rightarrow> 'a list \<Rightarrow> error + 'a list" where
  "stable_insert cmp x [] = Inr [x]"
| "stable_insert cmp x (y # ys) =
     (case cmp x y of
        Inl e \<Rightarrow> Inl e
      | Inr v \<Rightarrow>
          if js_gt0 v
          then (case stable_insert cmp x ys of Inl e \<Rightarrow> Inl e | Inr r \<Rightarrow> Inr (y # r))
          else Inr (x # y # ys))"

fun stable_sort :: "('a \<Rightarrow> 'a \<Rightarrow> error + jsnum) \<Rightarrow> 'a list \<Rightarrow> error + 'a list" where
  "stable_sort cmp [] = Inr []"
| "stable_sort cmp (x # xs) =
     (case stable_sort cmp xs of Inl e \<Rightarrow> Inl e | Inr s \<Rightarrow> stable_insert cmp x s)"

text \<open>
  \<^verbatim>\<open>rows.sort(comparefn)\<close> on the rows of a table.
  \<^item> An exception of the comparator ends the sort. Both comparators of \<^verbatim>\<open>sortTable\<close>
    raise, if at all, in every comparison that touches a row without a string in the
    column, and a sort of two or more rows compares each of them at least once; so the
    sort raises exactly when the insertion sort above does.
  \<^item> When the comparator is consistent on the rows, the result is the stable ascending
    order.
  \<^item> Otherwise (here: some subtraction of two values of the column is \<open>NaN\<close>) the order
    is implementation-defined: it is the runtime's, \<open>engine_order h\<close>. A runtime's sort
    returns the elements it was given, so an answer that is no permutation of the rows
    is not taken.
\<close>

definition js_sort :: "host \<Rightarrow> (row \<Rightarrow> row \<Rightarrow> error + jsnum) \<Rightarrow> row list \<Rightarrow> error + row list" where
  "js_sort h cmp xs =
     (case stable_sort cmp xs of
        Inl e \<Rightarrow> Inl e
      | Inr r \<Rightarrow>
          if consistent_on cmp xs then Inr r
          else if mset (engine_order h cmp xs) = mset xs then Inr (engine_order h cmp xs)
          else Inr r)"

text \<open>
  The order \<^verbatim>\<open>sortTable\<close> computes for the rows it has detached: \<^verbatim>\<open>rows.sort(...)\<close>, then
  \<^verbatim>\<open>rows.reverse()\<close> when \<^verbatim>\<open>descending\<close>.
\<close>

definition sorted_rows :: "host \<Rightarrow> row list \<Rightarrow> nat \<Rightarrow> bool \<Rightarrow> string option \<Rightarrow> error + row list" where
  "sorted_rows h rows colIndex descending sortType =
     (case js_sort h (comparator h colIndex sortType) rows of
        Inl e \<Rightarrow> Inl e
      | Inr r \<Rightarrow> Inr (if descending then rev r else r))"

text \<open>
  A handler either runs to its end or is cut short by an exception; either way it
  leaves a state behind.
\<close>

datatype 's outcome = Done 's | Threw error 's

fun state_of :: "'s outcome \<Rightarrow> 's" where
  "state_of (Done s) = s"
| "state_of (Threw e s) = s"

text \<open>
  \<^verbatim>\<open>sortTable\<close> on the table: every row is detached from TBODY first and appended again
  after the sort, so an exception of the comparator leaves TBODY without rows.
\<close>

definition sortTable :: "host \<Rightarrow> table \<Rightarrow> nat \<Rightarrow> bool \<Rightarrow> string option \<Rightarrow> table outcome" where
  "sortTable h t colIndex descending sortType =
     (case sorted_rows h (tbody t) colIndex descending sortType of
        Inl e \<Rightarrow> Threw e (t\<lparr>tbody := []\<rparr>)
      | Inr rows \<Rightarrow> Done (t\<lparr>tbody := rows\<rparr>))"

subsection \<open>Options and the per-form instance\<close>

text \<open>
  The argument of \<^verbatim>\<open>$.fn.websheet\<close>, one optional member per documented option. The
  callback is given the form and the table; the model lets it edit the table it is
  handed.
\<close>

record args =
  a_lang :: "string option"
  a_init_sort_col :: "nat option"
  a_init_sort_desc :: "bool option"
  a_dl_title :: "string option"
  a_loading :: "string option"
  a_failed :: "string option"
  a_callback :: "(table \<Rightarrow> table) option"

text \<open>The variables of the closure, once \<^verbatim>\<open>args\<close> has been read.\<close>

record options =
  lang :: string
  init_sort_col :: nat
  init_sort_desc :: bool
  dl_title :: string
  loading :: string
  failed :: string
  callback :: "(table \<Rightarrow> table) option"

text \<open>With the two variables each form adds: the split template and the base URL.\<close>

record config = options +
  format :: "string list"
  base_url :: string

definition extension :: string where
  "extension = ''.xls''"

definition defaults :: options where
  "defaults =
     \<lparr>lang = ''en'', init_sort_col = 0, init_sort_desc = False,
      dl_title = ''Download spreadsheet'', loading = ''Loading...'',
      failed = ''An error occured while attempting to load data.'', callback = None\<rparr>"

text \<open>
  \<^verbatim>\<open>if (args.x) { x = args.x; }\<close> for each option the source reads: a missing member, an
  empty string, \<open>0\<close> and \<open>false\<close> leave the default. The source has no such line for
  \<^verbatim>\<open>failed\<close>.
\<close>

definition read_args :: "args option \<Rightarrow> options" where
  "read_args a =
     (case a of
        None \<Rightarrow> defaults
      | Some args \<Rightarrow>
          \<lparr>lang = (case a_lang args of Some l \<Rightarrow> if l \<noteq> [] then l else lang defaults | None \<Rightarrow> lang defaults),
           init_sort_col =
             (case a_init_sort_col args of
                Some n \<Rightarrow> if n \<noteq> 0 then n else init_sort_col defaults
              | None \<Rightarrow> init_sort_col defaults),
           init_sort_desc =
             (case a_init_sort_desc args of
                Some d \<Rightarrow> if d then d else init_sort_desc defaults
              | None \<Rightarrow> init_sort_desc defaults),
           dl_title =
             (case a_dl_title args of
                Some x \<Rightarrow> if x \<noteq> [] then x else dl_title defaults
              | None \<Rightarrow> dl_title defaults),
           loading =
             (case a_loading args of
                Some x \<Rightarrow> if x \<noteq> [] then x else loading defaults
              | None \<Rightarrow> loading defaults),
           failed = failed defaults,
           callback = (case a_callback args of Some f \<Rightarrow> Some f | None \<Rightarrow> callback defaults)\<rparr>)"

text \<open>
  \<^verbatim>\<open>template.split(/([^a-zA-Z0-9]+)/)\<close>: the alphanumeric runs (possibly empty, at either
  end or for an empty template) alternating with the separators between them, which the
  capturing group keeps. \<open>insep\<close> tells that the chunk being read is a separator.
\<close>

fun split_chunks :: "bool \<Rightarrow> string \<Rightarrow> string \<Rightarrow> string list" where
  "split_chunks insep cur [] = (if insep then [rev cur, []] else [rev cur])"
| "split_chunks insep cur (c # cs) =
     (if is_alnum c = insep then rev cur # split_chunks (\<not> insep) [c] cs
      else split_chunks insep (c # cur) cs)"

definition split_format :: "string \<Rightarrow> string list" where
  "split_format template = split_chunks False [] template"

text \<open>An array converted to a string, as \<^verbatim>\<open>base_url + format + extension\<close> does.\<close>

fun array_toString :: "string list \<Rightarrow> string" where
  "array_toString [] = []"
| "array_toString [x] = x"
| "array_toString (x # y # xs) = x @ '','' @ array_toString (y # xs)"

subsection \<open>The state of one form\<close>

text \<open>
  A SELECT or INPUT element of the form: its \<^verbatim>\<open>name\<close> attribute, its value as \<^verbatim>\<open>.val()\<close>
  reads and writes it, whether it has class \<^verbatim>\<open>__widget_field\<close>, and whether
  \<^verbatim>\<open>serializeArray\<close> takes it (enabled, not a button, checked if it is a checkbox).
\<close>

record control =
  cname :: "string option"
  cval :: string
  widget_field :: bool
  submittable :: bool

text \<open>What the DIV after the form holds: nothing, markup, or the table.\<close>

datatype display = Blank | Markup string | Shown table

text \<open>
  \<open>hiddens\<close> are the hidden inputs of the SPAN appended to the form (name and value),
  \<open>last_submit\<close> the property of that name, \<open>sort_state\<close> the three properties
  \<^verbatim>\<open>__websheet_sort_col\<close>, \<^verbatim>\<open>__websheet_sort_desc\<close> and \<^verbatim>\<open>__websheet_sort_title\<close>, which are
  only ever set together.
\<close>

record form =
  inputs :: "control list"
  hiddens :: "(string \<times> string) list"
  last_submit :: jsobject
  sort_state :: "(nat \<times> bool \<times> string) option"
  dl_url :: string
  div_elem :: display

text \<open>
  The body of \<^verbatim>\<open>this.each\<close> up to the registration of the handlers. Both data attributes
  are needed: \<^verbatim>\<open>.split\<close> and \<^verbatim>\<open>.slice\<close> raise a TypeError on \<^verbatim>\<open>undefined\<close>. The
  alternative \<^verbatim>\<open>|| ['table']\<close> is never taken, since the array that \<^verbatim>\<open>split\<close> returns is
  truthy. The base URL gets a slash when its last character is not one.
\<close>

definition websheet :: "args option \<Rightarrow> string option \<Rightarrow> string option \<Rightarrow> control list \<Rightarrow> error + config \<times> form" where
  "websheet a data_filename_format data_source ctrls =
     (case data_filename_format of
        None \<Rightarrow> Inl TypeError
      | Some template \<Rightarrow>
          (case data_source of
             None \<Rightarrow> Inl TypeError
           | Some src \<Rightarrow>
               Inr (options.extend (read_args a)
                      \<lparr>format = split_format template,
                       base_url = (if src \<noteq> [] \<and> last src = CHR ''/'' then src else src @ ''/'')\<rparr>,
                    \<lparr>inputs = ctrls, hiddens = [], last_submit = [], sort_state = None,
                     dl_url = src @ array_toString (split_format template) @ extension,
                     div_elem = Blank\<rparr>)))"

subsection \<open>The submit handler\<close>

text \<open>jQuery's \<^verbatim>\<open>serializeArray\<close> writes every line break of a value as CR LF.\<close>

fun crlf :: "string \<Rightarrow> string" where
  "crlf [] = []"
| "crlf [c] = (if c = CHR 0x0A then [CHR 0x0D, CHR 0x0A] else [c])"
| "crlf (c # d # cs) =
     (if c = CHR 0x0D \<and> d = CHR 0x0A then c # d # crlf cs
      else if c = CHR 0x0A then CHR 0x0D # CHR 0x0A # crlf (d # cs)
      else c # crlf (d # cs))"

definition serializeArray :: "form \<Rightarrow> (string \<times> string) list" where
  "serializeArray s =
     concat (map (\<lambda>c. case cname c of
                         Some n \<Rightarrow> if n \<noteq> [] \<and> submittable c then [(n, crlf (cval c))] else []
                       | None \<Rightarrow> []) (inputs s))
     @ map (\<lambda>(n, v). (n, crlf v)) (filter (\<lambda>(n, v). n \<noteq> []) (hiddens s))"

definition sanitize_name :: "string \<Rightarrow> string" where
  "sanitize_name name = filter is_alnum name"

definition sanitize_value :: "string \<Rightarrow> string" where
  "sanitize_value v = filter (\<lambda>c. \<not> is_value_reserved c) v"

text \<open>
  The \<^verbatim>\<open>$.each(fields, ...)\<close> loop over \<^verbatim>\<open>dl_url\<close> and \<^verbatim>\<open>fieldsObj\<close>; \<open>flds\<close> stands for
  \<^verbatim>\<open>fields\<close>, the result of \<^verbatim>\<open>serializeArray\<close>.
\<close>

fun fields_loop :: "(string \<times> string) list \<Rightarrow> string \<times> jsobject \<Rightarrow> string \<times> jsobject" where
  "fields_loop [] acc = acc"
| "fields_loop ((name, v) # flds) (url, fieldsObj) =
     fields_loop flds
       (if v \<noteq> [] \<and> take 1 name \<noteq> ''_''
        then url @ sanitize_name name @ '':'' @ sanitize_value v @ ''/''
        else url,
        obj_set fieldsObj name v)"

text \<open>
  The \<^verbatim>\<open>for\<close> loop over \<^verbatim>\<open>format\<close>. A chunk that \<^verbatim>\<open>fieldsObj\<close> inherits is not
  \<^verbatim>\<open>undefined\<close> and has no \<^verbatim>\<open>replace\<close> method: the call raises a TypeError, with
  \<^verbatim>\<open>dl_url\<close> as far as it was built.
\<close>

fun format_loop :: "jsobject \<Rightarrow> string list \<Rightarrow> string \<Rightarrow> string outcome" where
  "format_loop fieldsObj [] url = Done url"
| "format_loop fieldsObj (chunk # chunks) url =
     (case obj_get fieldsObj chunk of
        Own v \<Rightarrow> format_loop fieldsObj chunks (url @ sanitize_value v)
      | Undefined \<Rightarrow> format_loop fieldsObj chunks (url @ chunk)
      | Inherited \<Rightarrow> Threw TypeError url)"

text \<open>The URL the handler builds from the serialized fields.\<close>

definition build_url :: "config \<Rightarrow> (string \<times> string) list \<Rightarrow> string outcome" where
  "build_url cfg flds =
     (case fields_loop flds (base_url cfg, []) of
        (url, fieldsObj) \<Rightarrow>
          (case format_loop fieldsObj (format cfg) url of
             Threw e u \<Rightarrow> Threw e u
           | Done u \<Rightarrow> Done (u @ extension)))"

definition fieldsObj_of :: "config \<Rightarrow> (string \<times> string) list \<Rightarrow> jsobject" where
  "fieldsObj_of cfg flds = snd (fields_loop flds (base_url cfg, []))"

text \<open>
  The handler: \<^verbatim>\<open>dl_url\<close> is built, the DIV shows the loading markup, and the request
  for \<^verbatim>\<open>dl_url\<close> is sent; its answer arrives later as \<open>success\<close> or \<open>error_handler\<close>.
\<close>

definition submit :: "config \<Rightarrow> form \<Rightarrow> form outcome" where
  "submit cfg s =
     (case build_url cfg (serializeArray s) of
        Threw e u \<Rightarrow> Threw e (s\<lparr>dl_url := u\<rparr>)
      | Done u \<Rightarrow> Done (s\<lparr>dl_url := u, div_elem := Markup (loading cfg)\<rparr>))"

subsection \<open>The success handler\<close>

text \<open>\<^verbatim>\<open>.replace(/[\s\.\-]+/g, '/')\<close>: every run of spaces, points and hyphens becomes one slash.\<close>

fun slash_runs :: "bool \<Rightarrow> string \<Rightarrow> string" where
  "slash_runs inrun [] = []"
| "slash_runs inrun (c # cs) =
     (if is_space c \<or> c = CHR ''.'' \<or> c = CHR ''-''
      then (if inrun then slash_runs True cs else CHR ''/'' # slash_runs True cs)
      else c # slash_runs False cs)"

text \<open>\<^verbatim>\<open>classes[i]\<close>, \<^verbatim>\<open>undefined\<close> past the end and for a header cell with no class attribute.\<close>

definition class_at :: "string option list \<Rightarrow> nat \<Rightarrow> string option" where
  "class_at classes i = (if i < length classes then classes ! i else None)"

text \<open>The \<^verbatim>\<open>switch (classes[i])\<close> that types a body cell.\<close>

definition typed :: "host \<Rightarrow> string \<Rightarrow> string option \<Rightarrow> string \<Rightarrow> tval" where
  "typed h lng cls cellText =
     (if cls = Some ''bool'' then TBool (trim cellText \<noteq> [])
      else if cls = Some ''number'' \<or> cls = Some ''amount'' then TNum (stringToFloat cellText lng)
      else if cls = Some ''date'' then TDate (Date_parse h (slash_runs False (trim cellText)))
      else TText (trim cellText))"

definition materialize_row :: "host \<Rightarrow> string \<Rightarrow> string option list \<Rightarrow> cell list \<Rightarrow> row" where
  "materialize_row h lng classes cs =
     \<lparr>cells = map (\<lambda>(i, c). c\<lparr>cclasses := addClass (cclasses c) (class_at classes i)\<rparr>) (enumerate 0 cs),
      rdata = map (\<lambda>(i, c). typed h lng (class_at classes i) (ctext c)) (enumerate 0 cs)\<rparr>"

text \<open>
  The test made at each header cell \<open>i\<close> while the handler walks the header row: the
  stored sort replaces the configured one when its column is \<open>i\<close> and its title is the
  text of that cell.
\<close>

definition sort_choice :: "config \<Rightarrow> (nat \<times> bool \<times> string) option \<Rightarrow> hcell list \<Rightarrow> nat \<times> bool" where
  "sort_choice cfg stored heads =
     foldl (\<lambda>(sort_col, sort_desc) (i, th).
              case stored of
                Some (form_sort_col, form_sort_desc, form_sort_title) \<Rightarrow>
                  if form_sort_col = i \<and> form_sort_title = htext th
                  then (form_sort_col, form_sort_desc) else (sort_col, sort_desc)
              | None \<Rightarrow> (sort_col, sort_desc))
       (init_sort_col cfg, init_sort_desc cfg) (enumerate 0 heads)"

definition download_span :: "config \<Rightarrow> string \<Rightarrow> string" where
  "download_span cfg url =
     '' <span class='' @ [CHR 0x22] @ ''websheet_download'' @ [CHR 0x22] @ ''><a href='' @ [CHR 0x22]
     @ url @ [CHR 0x22] @ ''>'' @ dl_title cfg @ ''</a></span>''"

text \<open>The table as it stands when it is appended to the DIV, before the callback.\<close>

definition materialize :: "host \<Rightarrow> config \<Rightarrow> string \<Rightarrow> html_table \<Rightarrow> table" where
  "materialize h cfg url t =
     \<lparr>tclasses = addClass (f_classes t) (Some ''websheet''),
      caption = (case f_caption t of None \<Rightarrow> [] | Some c \<Rightarrow> c) @ download_span cfg url,
      headers = map (\<lambda>th. \<lparr>label = htext th,
                            hclasses = (case hclass th of None \<Rightarrow> [] | Some v \<Rightarrow> class_tokens [] v),
                            className = hclass th\<rparr>) (f_head t),
      tbody = map (materialize_row h (lang cfg) (map hclass (f_head t))) (f_body t)\<rparr>"

text \<open>\<^verbatim>\<open>children().eq(sort_col).addClass(...)\<close>: nothing when there is no such header cell.\<close>

definition mark_header :: "table \<Rightarrow> nat \<Rightarrow> string \<Rightarrow> table" where
  "mark_header t i c =
     (if i < length (headers t)
      then t\<lparr>headers := (headers t)[i := (headers t ! i)\<lparr>hclasses := addClass (hclasses (headers t ! i)) (Some c)\<rparr>]\<rparr>
      else t)"

text \<open>
  \<open>fieldsObj\<close> is the object of the submission being answered, \<open>tables\<close> the TABLE elements
  of the fetched document in document order. \<^verbatim>\<open>last_submit\<close> is stored and the DIV emptied
  before the table is looked at. With no table every later call works on an empty jQuery
  set: nothing is shown and nothing is raised.
\<close>

definition success :: "host \<Rightarrow> config \<Rightarrow> jsobject \<Rightarrow> html_table list \<Rightarrow> form \<Rightarrow> form outcome" where
  "success h cfg fieldsObj tables s =
     (let s1 = s\<lparr>last_submit := fieldsObj, div_elem := Blank\<rparr>
      in case tables of
           [] \<Rightarrow> Done s1
         | t # _ \<Rightarrow>
             (let (sort_col, sort_desc) = sort_choice cfg (sort_state s) (f_head t);
                  shown = materialize h cfg (dl_url s) t;
                  shown = (case callback cfg of None \<Rightarrow> shown | Some f \<Rightarrow> f shown)
              in case sortTable h shown sort_col sort_desc (class_at (map hclass (f_head t)) sort_col) of
                   Threw e t' \<Rightarrow> Threw e (s1\<lparr>div_elem := Shown t'\<rparr>)
                 | Done t' \<Rightarrow>
                     Done (s1\<lparr>div_elem := Shown (mark_header t' sort_col (if sort_desc then ''desc'' else ''asc''))\<rparr>)))"

subsection \<open>The error handler\<close>

definition error_handler :: "config \<Rightarrow> form \<Rightarrow> form" where
  "error_handler cfg s = s\<lparr>div_elem := Markup (failed cfg)\<rparr>"

subsection \<open>The click handler of header cell \<open>i\<close>\<close>

definition clear_marks :: "table \<Rightarrow> table" where
  "clear_marks t = t\<lparr>headers := map (\<lambda>th. th\<lparr>hclasses := removeClass (hclasses th) [''asc'', ''desc'']\<rparr>) (headers t)\<rparr>"

text \<open>
  The direction the handler computes: \<^verbatim>\<open>wasInit\<close> tells whether the cell carries the
  class of the configured direction, and \<^verbatim>\<open>newDesc = (wasInit !== init_sort_desc)\<close>.
\<close>

definition newDesc :: "config \<Rightarrow> header \<Rightarrow> bool" where
  "newDesc cfg th =
     (let wasInit = hasClass (hclasses th) (if init_sort_desc cfg then ''desc'' else ''asc'')
      in wasInit \<noteq> init_sort_desc cfg)"

text \<open>
  A click needs a displayed table with a header cell \<open>i\<close>. The markers are cleared, the
  rows sorted, the clicked cell marked and the three sort properties stored, in this
  order: an exception of the sort leaves the markers cleared and nothing stored.
\<close>

definition header_click :: "host \<Rightarrow> config \<Rightarrow> nat \<Rightarrow> form \<Rightarrow> form outcome" where
  "header_click h cfg i s =
     (case div_elem s of
        Shown t \<Rightarrow>
          if i < length (headers t)
          then (let this = headers t ! i;
                    nd = newDesc cfg this;
                    newOrder = (if nd then ''desc'' else ''asc'')
                in case sortTable h (clear_marks t) i nd (className this) of
                     Threw e t' \<Rightarrow> Threw e (s\<lparr>div_elem := Shown t'\<rparr>)
                   | Done t' \<Rightarrow>
                       Done (s\<lparr>div_elem := Shown (mark_header t' i newOrder),
                               sort_state := Some (i, nd, label this)\<rparr>))
          else Done s
      | _ \<Rightarrow> Done s)"

subsection \<open>setState and getState\<close>

text \<open>
  The \<^verbatim>\<open>inputs.each\<close> loop. \<open>data\<close> is the caller's patch, read for its own properties;
  a control with no name attribute asks for the key \<^verbatim>\<open>undefined\<close>. The three statements
  of the body, the \<^verbatim>\<open>delete\<close> among them, run only when the patch has the name and its
  value is not the control's.
\<close>

fun inputs_loop :: "control list \<Rightarrow> jsobject \<Rightarrow> bool \<Rightarrow> control list \<times> jsobject \<times> bool" where
  "inputs_loop [] data changed = ([], data, changed)"
| "inputs_loop (c # cs) data changed =
     (let key = (case cname c of None \<Rightarrow> ''undefined'' | Some n \<Rightarrow> n)
      in case map_of data key of
           Some v \<Rightarrow>
             if \<not> widget_field c \<and> v \<noteq> cval c
             then (case inputs_loop cs (AList.delete key data) True of
                     (cs', data', changed') \<Rightarrow> (c\<lparr>cval := v\<rparr> # cs', data', changed'))
             else (case inputs_loop cs data changed of
                     (cs', data', changed') \<Rightarrow> (c # cs', data', changed'))
         | None \<Rightarrow>
             (case inputs_loop cs data changed of
                (cs', data', changed') \<Rightarrow> (c # cs', data', changed')))"

text \<open>
  The \<^verbatim>\<open>setState\<close> handler of a nested \<^verbatim>\<open>.__widget_form\<close> element belongs to another
  widget: given the patch and the controls, it returns its verdict and leaves both as it
  likes.
\<close>

type_synonym child = "jsobject \<Rightarrow> control list \<Rightarrow> bool \<times> jsobject \<times> control list"

fun children_loop :: "child list \<Rightarrow> control list \<Rightarrow> jsobject \<Rightarrow> bool \<Rightarrow> control list \<times> jsobject \<times> bool" where
  "children_loop [] cs data changed = (cs, data, changed)"
| "children_loop (w # ws) cs data changed =
     (case w data cs of
        (r, data', cs') \<Rightarrow> children_loop ws cs' data' (if r then True else changed))"

text \<open>What the handler returns, what it has made of the caller's patch, and the form.\<close>

record set_result =
  changed :: bool
  patch :: jsobject
  after :: form

text \<open>
  The handler: the hidden inputs are dropped, the controls and the nested widgets take
  what they know, every key still in the patch becomes a hidden input and counts as a
  change, and the form is submitted. An exception of the submit handler passes through
  \<^verbatim>\<open>$(this).submit()\<close>, so that nothing is returned.
\<close>

definition setState :: "config \<Rightarrow> child list \<Rightarrow> jsobject \<Rightarrow> form \<Rightarrow> set_result outcome" where
  "setState cfg widgets data s =
     (case inputs_loop (inputs s) data False of
        (cs1, data1, changed1) \<Rightarrow>
          (case children_loop widgets cs1 data1 changed1 of
             (cs2, data2, changed2) \<Rightarrow>
               (let s' = s\<lparr>inputs := cs2, hiddens := data2\<rparr>;
                    changed3 = (if data2 = [] then changed2 else True)
                in case submit cfg s' of
                     Threw e s'' \<Rightarrow> Threw e \<lparr>changed = changed3, patch = data2, after = s''\<rparr>
                   | Done s'' \<Rightarrow> Done \<lparr>changed = changed3, patch = data2, after = s''\<rparr>)))"

definition getState :: "form \<Rightarrow> jsobject" where
  "getState s = last_submit s"

subsection \<open>Runs of one form\<close>

text \<open>
  What can happen to a form: it is submitted, a request is answered (with the
  \<^verbatim>\<open>fieldsObj\<close> of its submission and the tables of the document) or fails, a header cell
  is clicked, or \<^verbatim>\<open>setState\<close> is triggered.
\<close>

datatype event =
  Submit
  | Success jsobject "html_table list"
  | Failure
  | Click nat
  | SetState jsobject

definition step :: "host \<Rightarrow> config \<Rightarrow> child list \<Rightarrow> form \<Rightarrow> event \<Rightarrow> form" where
  "step h cfg widgets s ev =
     (case ev of
        Submit \<Rightarrow> state_of (submit cfg s)
      | Success fieldsObj tables \<Rightarrow> state_of (success h cfg fieldsObj tables s)
      | Failure \<Rightarrow> error_handler cfg s
      | Click i \<Rightarrow> state_of (header_click h cfg i s)
      | SetState data \<Rightarrow> after (state_of (setState cfg widgets data s)))"

definition run :: "host \<Rightarrow> config \<Rightarrow> child list \<Rightarrow> form \<Rightarrow> event list \<Rightarrow> form" where
  "run h cfg widgets s evs = foldl (step h cfg widgets) s evs"

fun is_Success :: "event \<Rightarrow> bool" where
  "is_Success (Success fieldsObj tables) = True"
| "is_Success _ = False"

section \<open>Inputs for the examples\<close>

text \<open>
  The runtime of the examples orders rows as V8 does an array of fewer than 64 elements
  (its \<^verbatim>\<open>array-sort.tq\<close>; a longer array is cut into runs that are sorted this way and
  merged, which no example needs). A comparison reads \<open>NaN\<close> as zero. The run at the start
  of the array is found, comparing each element with the one before it (a strictly
  descending run is reversed); then every later element is inserted into the sorted part
  at the place a binary search gives.
\<close>

definition call_compare :: "('a \<Rightarrow> 'a \<Rightarrow> error + jsnum) \<Rightarrow> 'a \<Rightarrow> 'a \<Rightarrow> jsnum" where
  "call_compare cmp x y = (case cmp x y of Inl e \<Rightarrow> Fin 0 | Inr v \<Rightarrow> if v = NaN then Fin 0 else v)"

fun run_length :: "('a \<Rightarrow> 'a \<Rightarrow> error + jsnum) \<Rightarrow> bool \<Rightarrow> 'a \<Rightarrow> 'a list \<Rightarrow> nat" where
  "run_length cmp isDescending previousElement [] = 0"
| "run_length cmp isDescending previousElement (currentElement # rest) =
     (if js_lt0 (call_compare cmp currentElement previousElement) = isDescending
      then Suc (run_length cmp isDescending currentElement rest)
      else 0)"

definition count_and_make_run :: "('a \<Rightarrow> 'a \<Rightarrow> error + jsnum) \<Rightarrow> 'a list \<Rightarrow> 'a list \<times> 'a list" where
  "count_and_make_run cmp xs =
     (case xs of
        elementHigh # elementLow # rest \<Rightarrow>
          (let isDescending = js_lt0 (call_compare cmp elementLow elementHigh);
               runLength = 2 + run_length cmp isDescending elementLow rest
           in (if isDescending then rev (take runLength xs) else take runLength xs,
               drop runLength xs))
      | _ \<Rightarrow> (xs, []))"

function binary_search :: "('a \<Rightarrow> 'a \<Rightarrow> error + jsnum) \<Rightarrow> 'a \<Rightarrow> 'a list \<Rightarrow> nat \<Rightarrow> nat \<Rightarrow> nat" where
  "binary_search cmp pivot ys left right =
     (if left < right
      then (if js_lt0 (call_compare cmp pivot (ys ! (left + (right - left) div 2)))
            then binary_search cmp pivot ys left (left + (right - left) div 2)
            else binary_search cmp pivot ys (left + (right - left) div 2 + 1) right)
      else left)"
  by pat_completeness auto
termination
  by (relation "measure (\<lambda>(cmp, pivot, ys, left, right). right - left)") auto

definition binary_insert :: "('a \<Rightarrow> 'a \<Rightarrow> error + jsnum) \<Rightarrow> 'a list \<Rightarrow> 'a \<Rightarrow> 'a list" where
  "binary_insert cmp ys pivot =
     (let left = binary_search cmp pivot ys 0 (length ys)
      in take left ys @ pivot # drop left ys)"

definition v8_sort :: "('a \<Rightarrow> 'a \<Rightarrow> error + jsnum) \<Rightarrow> 'a list \<Rightarrow> 'a list" where
  "v8_sort cmp xs =
     (case count_and_make_run cmp xs of
        (first_run, rest) \<Rightarrow> foldl (binary_insert cmp) first_run rest)"

text \<open>
  It maps the ASCII letters to upper case. The examples hold no date and apply no
  arithmetic to a string, so these two members are not consulted there.
\<close>

definition ascii_upper :: "char \<Rightarrow> char" where
  "ascii_upper c =
     (case map_of (zip ''abcdefghijklmnopqrstuvwxyz'' ''ABCDEFGHIJKLMNOPQRSTUVWXYZ'') c of
        Some u \<Rightarrow> u
      | None \<Rightarrow> c)"

definition example_host :: host where
  "example_host =
     \<lparr>toUpperCase = map ascii_upper, Date_parse = (\<lambda>s. NaN), StringToNumber = (\<lambda>s. NaN),
      engine_order = v8_sort\<rparr>"

text \<open>A form with the default options, template \<^verbatim>\<open>table\<close> and one text input \<^verbatim>\<open>a\<close> of value \<^verbatim>\<open>1\<close>,
  as it stands after a submission.\<close>

definition example_config :: config where
  "example_config = options.extend defaults \<lparr>format = [''table''], base_url = ''https://x/r/''\<rparr>"

definition example_form :: form where
  "example_form =
     \<lparr>inputs = [\<lparr>cname = Some ''a'', cval = ''1'', widget_field = False, submittable = True\<rparr>],
      hiddens = [], last_submit = [], sort_state = None, dl_url = ''https://x/r/a:1/table.xls'',
      div_elem = Markup ''Loading...''\<rparr>"

text \<open>A fetched table with a text column and a numeric one, whose second row holds no number.\<close>

definition example_html :: html_table where
  "example_html =
     \<lparr>f_classes = [], f_caption = None,
      f_head = [\<lparr>htext = ''Name'', hclass = None\<rparr>, \<lparr>htext = ''Qty'', hclass = Some ''number''\<rparr>],
      f_body = [[\<lparr>ctext = ''b'', cclasses = []\<rparr>, \<lparr>ctext = ''2'', cclasses = []\<rparr>],
                [\<lparr>ctext = ''a'', cclasses = []\<rparr>, \<lparr>ctext = ''n/a'', cclasses = []\<rparr>],
                [\<lparr>ctext = ''B'', cclasses = []\<rparr>, \<lparr>ctext = ''1'', cclasses = []\<rparr>]]\<rparr>"

text \<open>Its rows and its table once materialized.\<close>

definition qty_row :: "string \<Rightarrow> string \<Rightarrow> jsnum \<Rightarrow> row" where
  "qty_row name qty n =
     \<lparr>cells = [\<lparr>ctext = name, cclasses = []\<rparr>, \<lparr>ctext = qty, cclasses = [''number'']\<rparr>],
      rdata = [TText name, TNum n]\<rparr>"

definition qty_table :: "row list \<Rightarrow> table" where
  "qty_table rows =
     \<lparr>tclasses = [''websheet''], caption = [],
      headers = [\<lparr>label = ''Name'', hclasses = [], className = None\<rparr>,
                 \<lparr>label = ''Qty'', hclasses = [''number''], className = Some ''number''\<rparr>],
      tbody = rows\<rparr>"

text \<open>A displayed table of two text columns, and a row of text cells.\<close>

definition text_row :: "string list \<Rightarrow> row" where
  "text_row xs = \<lparr>cells = map (\<lambda>x. \<lparr>ctext = x, cclasses = []\<rparr>) xs, rdata = map TText xs\<rparr>"

definition example_table :: "row list \<Rightarrow> table" where
  "example_table rows =
     \<lparr>tclasses = [''websheet''], caption = [],
      headers = [\<lparr>label = ''Name'', hclasses = [], className = None\<rparr>,
                 \<lparr>label = ''Note'', hclasses = [], className = None\<rparr>],
      tbody = rows\<rparr>"

section \<open>Notions the properties are stated with\<close>

text \<open>
  Two rows tie when the comparator chosen for the column reports neither less-than nor
  greater-than for them: its result is zero or \<open>NaN\<close>.
\<close>

definition ties :: "host \<Rightarrow> nat \<Rightarrow> string option \<Rightarrow> row \<Rightarrow> row \<Rightarrow> bool" where
  "ties h colIndex sortType a b =
     (case comparator h colIndex sortType a b of
        Inl e \<Rightarrow> False
      | Inr v \<Rightarrow> \<not> js_gt0 v \<and> \<not> js_lt0 v)"

text \<open>The comparator does not ask for \<open>a\<close> to be placed behind \<open>b\<close>.\<close>

definition not_after :: "('a \<Rightarrow> 'a \<Rightarrow> error + jsnum) \<Rightarrow> 'a \<Rightarrow> 'a \<Rightarrow> bool" where
  "not_after cmp a b = (case cmp a b of Inl e \<Rightarrow> False | Inr v \<Rightarrow> \<not> js_gt0 v)"

text \<open>
  The sort a reload applies according to the specification (section 4.4): the stored
  SortState when its column index and its header label both match the header of the
  fresh table at that index, else the configured initial sort.
\<close>

definition reload_sort_spec :: "config \<Rightarrow> (nat \<times> bool \<times> string) option \<Rightarrow> hcell list \<Rightarrow> nat \<times> bool" where
  "reload_sort_spec cfg stored heads =
     (case stored of
        Some (columnIndex, descending, headerLabel) \<Rightarrow>
          if columnIndex < length heads \<and> htext (heads ! columnIndex) = headerLabel
          then (columnIndex, descending)
          else (init_sort_col cfg, init_sort_desc cfg)
      | None \<Rightarrow> (init_sort_col cfg, init_sort_desc cfg))"

text \<open>A fetched table whose body rows have one cell for two header cells, and how it is shown.\<close>

definition ragged_html :: html_table where
  "ragged_html =
     \<lparr>f_classes = [], f_caption = None,
      f_head = [\<lparr>htext = ''Name'', hclass = None\<rparr>, \<lparr>htext = ''Note'', hclass = None\<rparr>],
      f_body = [[\<lparr>ctext = ''x'', cclasses = []\<rparr>], [\<lparr>ctext = ''y'', cclasses = []\<rparr>]]\<rparr>"

definition ragged_shown :: "string list \<Rightarrow> row list \<Rightarrow> table" where
  "ragged_shown marks rows =
     \<lparr>tclasses = [''websheet''],
      caption = download_span example_config ''https://x/r/a:1/table.xls'',
      headers = [\<lparr>label = ''Name'', hclasses = marks, className = None\<rparr>,
                 \<lparr>label = ''Note'', hclasses = [], className = None\<rparr>],
      tbody = rows\<rparr>"

text \<open>A header cell is marked when it carries the class \<^verbatim>\<open>asc\<close> or \<^verbatim>\<open>desc\<close>.\<close>

definition marked :: "header \<Rightarrow> bool" where
  "marked th = (hasClass (hclasses th) ''asc'' \<or> hasClass (hclasses th) ''desc'')"

text \<open>
  The URL of a submission with the serialized fields \<open>flds\<close>, for a form initialised with
  the given \<^verbatim>\<open>data-source\<close> and \<^verbatim>\<open>data-filename-format\<close>.
\<close>

definition fetch_url :: "args option \<Rightarrow> string \<Rightarrow> string \<Rightarrow> (string \<times> string) list \<Rightarrow> string outcome" where
  "fetch_url a data_source template flds =
     (case websheet a (Some template) (Some data_source) [] of
        Inl e \<Rightarrow> Threw e []
      | Inr (cfg, s) \<Rightarrow> build_url cfg flds)"

text \<open>
  The URL Builder as the specification words it (section 4.2): the base normalized to end
  with exactly one slash; a segment for each field whose value is not empty and whose
  name does not start with an underscore; the template with each word-like token
  replaced by the sanitized value of the field of that name (the last one, if several
  bear it), and the suffix.
\<close>

definition spec_base_url :: "string \<Rightarrow> string" where
  "spec_base_url baseUrl = rev (dropWhile (\<lambda>c. c = CHR ''/'') (rev baseUrl)) @ ''/''"

definition spec_segments :: "(string \<times> string) list \<Rightarrow> string" where
  "spec_segments flds =
     concat (map (\<lambda>(name, v). sanitize_name name @ '':'' @ sanitize_value v @ ''/'')
                 (filter (\<lambda>(name, v). v \<noteq> [] \<and> take 1 name \<noteq> ''_'') flds))"

definition spec_filename :: "(string \<times> string) list \<Rightarrow> string \<Rightarrow> string" where
  "spec_filename flds template =
     concat (map (\<lambda>token. if list_all is_alnum token
                           then (case map_of (rev flds) token of
                                   Some v \<Rightarrow> sanitize_value v
                                 | None \<Rightarrow> token)
                           else token)
                 (split_format template))
     @ ''.xls''"

definition URL_Builder_spec :: "string \<Rightarrow> (string \<times> string) list \<Rightarrow> string \<Rightarrow> string" where
  "URL_Builder_spec baseUrl flds template =
     spec_base_url baseUrl @ spec_segments flds @ spec_filename flds template"


section \<open>Properties\<close>

lemmas num_defs = stringToFloat_def strip_non_numeric_def is_numeric_char_def is_digit_def
  parseFloat_def unsigned_literal_def digits_val_def digit_val_def

lemmas sort_defs = sortTable_def sorted_rows_def comparator_def numeric_kind_def text_compare_def
  numeric_compare_def datum_def

lemmas engine_defs = js_sort_def consistent_on_def CF_def v8_sort_def count_and_make_run_def
  binary_insert_def call_compare_def

lemmas mat_defs = materialize_def materialize_row_def typed_def class_at_def addClass_def trim_def
  is_space_def download_span_def

lemmas form_defs = example_form_def example_config_def defaults_def options.extend_def

lemmas url_defs = build_url_def serializeArray_def obj_set_def obj_get_def sanitize_name_def
  sanitize_value_def is_alnum_def is_digit_def is_value_reserved_def Object_prototype_names_def
  extension_def

subsection \<open>setState\<close>

text \<open>
  C1 says that \<^verbatim>\<open>setState\<close> removes from the patch every key that names a control of the
  form, whether or not the value differed, so that a key whose value is already the
  control's is consumed, gets no hidden input and does not make the result true. The
  source deletes the key inside the branch that found a different value. On the example
  form, whose input \<^verbatim>\<open>a\<close> holds \<^verbatim>\<open>1\<close>, the patch \<^verbatim>\<open>{a: "1"}\<close> keeps its key, the key becomes a
  hidden input beside the control (the URL then names \<^verbatim>\<open>a\<close> twice), and the handler
  returns true.
\<close>

theorem setState_keeps_equal_key:
  "setState example_config [] [(''a'', ''1'')] example_form =
     Done \<lparr>changed = True, patch = [(''a'', ''1'')],
           after = example_form\<lparr>hiddens := [(''a'', ''1'')],
                                 dl_url := ''https://x/r/a:1/a:1/table.xls''\<rparr>\<rparr>"
  by (simp add: setState_def example_form_def example_config_def submit_def url_defs
      defaults_def options.extend_def Let_def)

subsection \<open>stringToFloat\<close>

lemma replace_first_append:
  "a \<notin> set xs \<Longrightarrow> replace_first a b (xs @ a # ys) = xs @ b # ys"
  by (induction xs) auto

text \<open>
  C2 as stated, that under \<^verbatim>\<open>fr\<close> the text \<^verbatim>\<open>1,234.50\<close> parses to 1234.50, fails: the comma
  becomes a point, and \<^verbatim>\<open>parseFloat\<close> stops reading \<^verbatim>\<open>1.234.50\<close> at the second point.
\<close>

theorem stringToFloat_fr_counterexample:
  "stringToFloat ''1,234.50'' ''fr'' \<noteq> Fin 1234.5"
  by (simp add: num_defs)

text \<open>
  C2, amended: under \<^verbatim>\<open>fr\<close> the first comma of the text is replaced by a point, then
  every character outside \<^verbatim>\<open>[0-9+\-.]\<close> is stripped (a later comma with them), and the
  longest leading decimal literal of what is left is the value. So \<^verbatim>\<open>1,234.50\<close> parses
  to 1.234.
\<close>

theorem stringToFloat_fr:
  "(CHR '','' \<notin> set a \<longrightarrow>
      stringToFloat (a @ CHR '','' # b) ''fr''
        = parseFloat (strip_non_numeric a @ CHR ''.'' # strip_non_numeric b))
   \<and> stringToFloat ''1,234.50'' ''fr'' = Fin 1.234"
  by (simp add: num_defs replace_first_append)

text \<open>The French spelling of the number, with a space for the thousands, does give 1234.50.\<close>

theorem stringToFloat_fr_witness:
  "CHR '','' \<notin> set ''1 234'' \<and> stringToFloat ''1 234,50'' ''fr'' = Fin 1234.5"
  using stringToFloat_fr [of "''1 234''" "''50''"] by (simp add: num_defs)

subsection \<open>A document without a table\<close>

text \<open>
  C3 as stated, that a document without a table shows the failure markup and leaves the
  stored FormState unchanged, fails: the handler has stored the submitted fields before
  it looks for a table, and it shows nothing.
\<close>

theorem success_no_table_counterexample:
  "\<not> (div_elem (state_of (success example_host example_config [(''a'', ''2'')] [] example_form))
        = Markup (failed example_config)
      \<and> getState (state_of (success example_host example_config [(''a'', ''2'')] [] example_form))
        = getState example_form)"
  by (simp add: success_def example_form_def getState_def)

text \<open>
  C3, amended: when the fetched document contains no table element the success handler
  raises nothing; it stores the fields of the answered submission as the FormState,
  which \<^verbatim>\<open>getState\<close> returns from then on, and leaves the display area empty.
\<close>

theorem success_no_table:
  "success h cfg fieldsObj [] s = Done (s\<lparr>last_submit := fieldsObj, div_elem := Blank\<rparr>)
   \<and> getState (state_of (success h cfg fieldsObj [] s)) = fieldsObj
   \<and> div_elem (state_of (success h cfg fieldsObj [] s)) = Blank"
  by (simp add: success_def getState_def)

subsection \<open>Failure markup\<close>

text \<open>The source never reads \<^verbatim>\<open>args.failed\<close>: the markup is the built-in one for every argument.\<close>

lemma read_args_failed: "failed (read_args a) = failed defaults"
  by (simp add: read_args_def split: option.splits)

text \<open>
  C9 as stated, that a failed fetch and a response without a table are surfaced
  identically, fails: after the first the display area holds the failure markup, after
  the second it is empty.
\<close>

theorem failure_kinds_counterexample:
  "div_elem (state_of (success example_host example_config [] [] example_form))
     \<noteq> div_elem (error_handler example_config example_form)"
  by (simp add: success_def error_handler_def)

text \<open>
  C9, amended: on every failed fetch the display area shows the failure markup of the
  instance, in place of the loading indicator that the submission had put there; a
  response without a table is not surfaced as a failure, the display area is left empty.
\<close>

theorem error_handler_shows_failed:
  "div_elem (error_handler cfg s) = Markup (failed cfg)
   \<and> (\<forall>s'. submit cfg s = Done s' \<longrightarrow>
         div_elem s' = Markup (loading cfg) \<and> div_elem (error_handler cfg s') = Markup (failed cfg))
   \<and> div_elem (state_of (success h cfg fieldsObj [] s)) = Blank"
  by (auto simp add: success_def error_handler_def submit_def split: outcome.splits)

theorem error_handler_shows_failed_witness:
  "submit example_config example_form = Done (example_form\<lparr>div_elem := Markup ''Loading...''\<rparr>)
   \<and> div_elem (error_handler example_config (example_form\<lparr>div_elem := Markup ''Loading...''\<rparr>))
       = Markup ''An error occured while attempting to load data.''"
  using error_handler_shows_failed [of example_config example_form]
  by (simp add: example_form_def example_config_def submit_def url_defs defaults_def
      options.extend_def error_handler_def)

subsection \<open>Ascending and descending order\<close>

lemma stable_insert_mset:
  "stable_insert cmp x ys = Inr r \<Longrightarrow> mset r = add_mset x (mset ys)"
proof (induction ys arbitrary: r)
  case Nil
  then show ?case by auto
next
  case (Cons y ys)
  then show ?case
    by (auto split: sum.splits if_splits)
qed

lemma stable_sort_mset: "stable_sort cmp xs = Inr r \<Longrightarrow> mset r = mset xs"
proof (induction xs arbitrary: r)
  case Nil
  then show ?case by simp
next
  case (Cons x xs)
  then show ?case
    by (auto split: sum.splits dest: stable_insert_mset)
qed

lemma js_sort_mset: "js_sort h cmp xs = Inr r \<Longrightarrow> mset r = mset xs"
  by (auto simp: js_sort_def split: sum.splits if_splits dest: stable_sort_mset)

lemma js_sort_consistent:
  "consistent_on cmp xs \<Longrightarrow> js_sort h cmp xs = stable_sort cmp xs"
  by (simp add: js_sort_def split: sum.splits)

text \<open>
  Inserting \<open>x\<close> in front of a list moves it past an element only when the comparator is
  positive there. So a selection \<open>P\<close> of rows none of which is asked behind another keeps
  its order.
\<close>

lemma stable_insert_filter:
  assumes "stable_insert cmp x ys = Inr r"
    and "P x \<Longrightarrow> \<forall>y\<in>set ys. P y \<longrightarrow> not_after cmp x y"
  shows "filter P r = filter P (x # ys)"
  using assms
proof (induction ys arbitrary: r)
  case Nil
  then show ?case by auto
next
  case (Cons y ys)
  from Cons.prems(1) obtain v where v: "cmp x y = Inr v"
    by (auto split: sum.splits)
  show ?case
  proof (cases "js_gt0 v")
    case True
    with v Cons.prems(1) obtain r' where r': "stable_insert cmp x ys = Inr r'" and r: "r = y # r'"
      by (auto split: sum.splits)
    have "filter P r' = filter P (x # ys)"
      using Cons.IH [OF r'] Cons.prems(2) by simp
    moreover have "\<not> (P x \<and> P y)"
      using Cons.prems(2) v True by (auto simp: not_after_def)
    ultimately show ?thesis using r by auto
  next
    case False
    with v Cons.prems(1) show ?thesis by auto
  qed
qed

lemma stable_sort_filter:
  assumes "stable_sort cmp xs = Inr r"
    and "\<forall>a\<in>set xs. \<forall>b\<in>set xs. P a \<and> P b \<longrightarrow> not_after cmp a b"
  shows "filter P r = filter P xs"
  using assms
proof (induction xs arbitrary: r)
  case Nil
  then show ?case by simp
next
  case (Cons x xs)
  from Cons.prems(1) obtain s where s: "stable_sort cmp xs = Inr s" and r: "stable_insert cmp x s = Inr r"
    by (auto split: sum.splits)
  have set_s: "set s = set xs"
    using stable_sort_mset [OF s] by (metis set_mset_mset)
  have "filter P s = filter P xs"
    using Cons.IH [OF s] Cons.prems(2) by simp
  moreover have "filter P r = filter P (x # s)"
    using stable_insert_filter [OF r] Cons.prems(2) set_s by simp
  ultimately show ?case by simp
qed

lemma js_gt0_not_lt0: "js_gt0 v \<Longrightarrow> \<not> js_lt0 v"
  by (cases v) auto

lemma not_after_CF: "not_after cmp a b \<longleftrightarrow> (\<exists>v. cmp a b = Inr v) \<and> CF cmp a b \<noteq> Some After"
proof (cases "cmp a b")
  case (Inl e)
  then show ?thesis by (simp add: not_after_def CF_def)
next
  case (Inr v)
  then show ?thesis
    using js_gt0_not_lt0 [of v] by (cases v) (simp_all add: not_after_def CF_def)
qed

lemma CF_After: "CF cmp a b = Some After \<longleftrightarrow> (\<exists>v. cmp a b = Inr v \<and> js_gt0 v)"
proof (cases "cmp a b")
  case (Inl e)
  then show ?thesis by (simp add: CF_def)
next
  case (Inr v)
  then show ?thesis
    using js_gt0_not_lt0 [of v] by (cases v) (simp_all add: CF_def)
qed
lemma CF_total: "CF cmp a b \<noteq> None \<Longrightarrow> \<exists>v. cmp a b = Inr v"
  by (cases "cmp a b") (auto simp: CF_def)

text \<open>The clauses of consistency, one by one, and what follows from them.\<close>

lemma consistent_total:
  "consistent_on cmp zs \<Longrightarrow> a \<in> set zs \<Longrightarrow> b \<in> set zs \<Longrightarrow> CF cmp a b \<noteq> None"
  unfolding consistent_on_def by (elim conjE) (rule bspec, erule bspec)

lemma consistent_refl:
  "consistent_on cmp zs \<Longrightarrow> a \<in> set zs \<Longrightarrow> CF cmp a a = Some Same"
  unfolding consistent_on_def by (elim conjE) (erule bspec)

lemma consistent_sym:
  "consistent_on cmp zs \<Longrightarrow> a \<in> set zs \<Longrightarrow> b \<in> set zs \<Longrightarrow> CF cmp a b = Some Same
   \<Longrightarrow> CF cmp b a = Some Same"
  unfolding consistent_on_def by (elim conjE) (rule mp, rule bspec, erule bspec)

lemma consistent_trans_Same:
  "consistent_on cmp zs \<Longrightarrow> a \<in> set zs \<Longrightarrow> b \<in> set zs \<Longrightarrow> c \<in> set zs
   \<Longrightarrow> CF cmp a b = Some Same \<Longrightarrow> CF cmp b c = Some Same \<Longrightarrow> CF cmp a c = Some Same"
  unfolding consistent_on_def by (elim conjE) (rule mp, rule bspec, rule bspec, erule bspec, assumption+, rule conjI)

lemma consistent_trans_Before:
  "consistent_on cmp zs \<Longrightarrow> a \<in> set zs \<Longrightarrow> b \<in> set zs \<Longrightarrow> c \<in> set zs
   \<Longrightarrow> CF cmp a b = Some Before \<Longrightarrow> CF cmp b c = Some Before \<Longrightarrow> CF cmp a c = Some Before"
  unfolding consistent_on_def by (elim conjE) (rule mp, rule bspec, rule bspec, erule bspec, assumption+, rule conjI)

lemma consistent_trans_After:
  "consistent_on cmp zs \<Longrightarrow> a \<in> set zs \<Longrightarrow> b \<in> set zs \<Longrightarrow> c \<in> set zs
   \<Longrightarrow> CF cmp a b = Some After \<Longrightarrow> CF cmp b c = Some After \<Longrightarrow> CF cmp a c = Some After"
  unfolding consistent_on_def by (elim conjE) (rule mp, rule bspec, rule bspec, erule bspec, assumption+, rule conjI)

lemma consistent_flip:
  assumes c: "consistent_on cmp zs" and a: "a \<in> set zs" and b: "b \<in> set zs"
    and ab: "CF cmp a b = Some Before"
  shows "CF cmp b a = Some After"
proof -
  from consistent_total [OF c b a] obtain r where r: "CF cmp b a = Some r" by auto
  show ?thesis
  proof (cases r)
    case Before
    with consistent_trans_Before [OF c a b a ab] r have "CF cmp a a = Some Before" by simp
    with consistent_refl [OF c a] show ?thesis by simp
  next
    case Same
    with consistent_sym [OF c b a] r have "CF cmp a b = Some Same" by simp
    with ab show ?thesis by simp
  next
    case After
    with r show ?thesis by simp
  qed
qed

lemma consistent_not_both_after:
  assumes c: "consistent_on cmp zs" and a: "a \<in> set zs" and b: "b \<in> set zs"
    and ab: "CF cmp a b = Some After"
  shows "not_after cmp b a"
proof -
  have "CF cmp b a \<noteq> Some After"
  proof
    assume "CF cmp b a = Some After"
    from consistent_trans_After [OF c a b a ab this] consistent_refl [OF c a]
    show False by simp
  qed
  with CF_total [OF consistent_total [OF c b a]] show ?thesis by (simp add: not_after_CF)
qed

lemma consistent_le_trans:
  assumes c: "consistent_on cmp zs" and a: "a \<in> set zs" and b: "b \<in> set zs" and d: "d \<in> set zs"
    and ab: "not_after cmp a b" and bd: "not_after cmp b d"
  shows "not_after cmp a d"
proof -
  from consistent_total [OF c a b] obtain r1 where r1: "CF cmp a b = Some r1" by auto
  from consistent_total [OF c b d] obtain r2 where r2: "CF cmp b d = Some r2" by auto
  from ab r1 have n1: "r1 \<noteq> After" by (simp add: not_after_CF)
  from bd r2 have n2: "r2 \<noteq> After" by (simp add: not_after_CF)
  have "CF cmp a d \<noteq> Some After"
  proof
    assume ad: "CF cmp a d = Some After"
    show False
    proof (cases r1)
      case Before
      with r1 have "CF cmp b a = Some After"
        using consistent_flip [OF c a b] by simp
      from consistent_trans_After [OF c b a d this ad] r2 n2 show False by simp
    next
      case Same
      note s1 = this
      show False
      proof (cases r2)
        case Before
        with r2 have "CF cmp d b = Some After"
          using consistent_flip [OF c b d] by simp
        from consistent_trans_After [OF c a d b ad this] r1 n1 show False by simp
      next
        case Same
        with s1 r1 r2 have "CF cmp a d = Some Same"
          using consistent_trans_Same [OF c a b d] by simp
        with ad show False by simp
      next
        case After
        with n2 show False by simp
      qed
    next
      case After
      with n1 show False by simp
    qed
  qed
  with CF_total [OF consistent_total [OF c a d]] show ?thesis by (simp add: not_after_CF)
qed

text \<open>Under a consistent comparator the insertion sort leaves the list in ascending order.\<close>

lemma stable_insert_sorted:
  assumes c: "consistent_on cmp zs" and x: "x \<in> set zs" and ys: "set ys \<subseteq> set zs"
    and sorted: "sorted_wrt (not_after cmp) ys"
    and ins: "stable_insert cmp x ys = Inr r"
  shows "sorted_wrt (not_after cmp) r"
  using ys sorted ins
proof (induction ys arbitrary: r)
  case Nil
  then show ?case by auto
next
  case (Cons y ys)
  from Cons.prems(1) have y: "y \<in> set zs" and ys': "set ys \<subseteq> set zs" by auto
  from Cons.prems(3) obtain v where v: "cmp x y = Inr v"
    by (auto split: sum.splits)
  show ?case
  proof (cases "js_gt0 v")
    case True
    with v Cons.prems(3) obtain r' where r': "stable_insert cmp x ys = Inr r'" and r: "r = y # r'"
      by (auto split: sum.splits)
    have sr': "sorted_wrt (not_after cmp) r'"
      using Cons.IH [OF ys' _ r'] Cons.prems(2) by simp
    have "set r' = insert x (set ys)"
      using stable_insert_mset [OF r'] by (metis set_mset_add_mset_insert set_mset_mset)
    moreover have "not_after cmp y x"
      using consistent_not_both_after [OF c x y] v True by (simp add: CF_After)
    ultimately have "\<forall>z\<in>set r'. not_after cmp y z"
      using Cons.prems(2) by auto
    with sr' r show ?thesis by simp
  next
    case False
    with v Cons.prems(3) have r: "r = x # y # ys" by auto
    have xy: "not_after cmp x y"
      using v False by (simp add: not_after_def)
    have "not_after cmp x z" if "z \<in> set ys" for z
    proof -
      from that Cons.prems(2) have "not_after cmp y z" by auto
      moreover from that ys' have "z \<in> set zs" by auto
      ultimately show ?thesis
        using consistent_le_trans [OF c x y _ xy] by blast
    qed
    with xy Cons.prems(2) r show ?thesis by auto
  qed
qed

lemma stable_sort_sorted:
  assumes c: "consistent_on cmp zs" and xs: "set xs \<subseteq> set zs"
    and s: "stable_sort cmp xs = Inr r"
  shows "sorted_wrt (not_after cmp) r"
  using xs s
proof (induction xs arbitrary: r)
  case Nil
  then show ?case by simp
next
  case (Cons x xs)
  from Cons.prems(2) obtain s where s: "stable_sort cmp xs = Inr s" and r: "stable_insert cmp x s = Inr r"
    by (auto split: sum.splits)
  have "set s = set xs"
    using stable_sort_mset [OF s] by (metis set_mset_mset)
  with Cons.prems(1) have sub: "set s \<subseteq> set zs" and x: "x \<in> set zs" by auto
  have "sorted_wrt (not_after cmp) s"
    using Cons.IH [OF _ s] Cons.prems(1) by simp
  from stable_insert_sorted [OF c x sub this r] show ?case .
qed

text \<open>
  The text comparator is consistent on rows that all hold a string in the column, the
  numeric one on rows whose values in the column are all finite numbers.
\<close>

lemma CF_text_compare:
  "datum a c = TText x \<Longrightarrow> datum b c = TText y \<Longrightarrow>
   CF (text_compare h c) a b
     = Some (if toUpperCase h x > toUpperCase h y then After
             else if toUpperCase h x < toUpperCase h y then Before else Same)"
  by (simp add: CF_def text_compare_def Let_def)

lemma text_compare_consistent:
  assumes "\<forall>r\<in>set xs. \<exists>s. datum r c = TText s"
  shows "consistent_on (text_compare h c) xs"
proof -
  define key where "key r = toUpperCase h (case datum r c of TText s \<Rightarrow> s | _ \<Rightarrow> [])" for r
  have cf: "CF (text_compare h c) a b
      = Some (if key a > key b then After else if key a < key b then Before else Same)"
    if "a \<in> set xs" "b \<in> set xs" for a b
  proof -
    from that assms obtain x y where "datum a c = TText x" "datum b c = TText y" by blast
    then show ?thesis by (simp add: CF_text_compare key_def)
  qed
  show ?thesis
    unfolding consistent_on_def
    by (intro conjI ballI impI) (auto simp: cf split: if_splits)
qed

lemma CF_numeric_compare:
  "to_number h (datum a c) = Fin p \<Longrightarrow> to_number h (datum b c) = Fin q \<Longrightarrow>
   CF (numeric_compare h c) a b = Some (if p < q then Before else if q < p then After else Same)"
  by (simp add: CF_def numeric_compare_def)

lemma numeric_compare_consistent:
  assumes "\<forall>r\<in>set xs. \<exists>q. to_number h (datum r c) = Fin q"
  shows "consistent_on (numeric_compare h c) xs"
proof -
  define key where "key r = (case to_number h (datum r c) of Fin q \<Rightarrow> q | _ \<Rightarrow> 0)" for r
  have cf: "CF (numeric_compare h c) a b
      = Some (if key a < key b then Before else if key b < key a then After else Same)"
    if "a \<in> set xs" "b \<in> set xs" for a b
  proof -
    from that assms obtain p q where "to_number h (datum a c) = Fin p" "to_number h (datum b c) = Fin q"
      by blast
    then show ?thesis by (simp add: CF_numeric_compare key_def)
  qed
  show ?thesis
    unfolding consistent_on_def
    by (intro conjI ballI impI) (auto simp: cf split: if_splits)
qed

lemma ties_not_after: "ties h c k a b \<Longrightarrow> not_after (comparator h c k) a b"
  by (auto simp: ties_def not_after_def split: sum.splits)

text \<open>
  C5 as stated, that for every row set ties keep their original order in the ascending
  result, fails where the comparator is not consistent. In a numeric column with the
  values 2, 1, \<open>NaN\<close>, 0 the rows of \<open>NaN\<close> and of 0 tie, whichever is passed first, and the
  row of \<open>NaN\<close> stands before the row of 0; sorted ascending by the runtime of the
  examples, the row of 0 comes out first and the row of \<open>NaN\<close> last.
\<close>

theorem sortTable_ties_counterexample:
  "ties example_host 1 (Some ''number'') (qty_row ''r'' ''n/a'' NaN) (qty_row ''s'' ''0'' (Fin 0))
   \<and> ties example_host 1 (Some ''number'') (qty_row ''s'' ''0'' (Fin 0)) (qty_row ''r'' ''n/a'' NaN)
   \<and> sortTable example_host
        (qty_table [qty_row ''p'' ''2'' (Fin 2), qty_row ''q'' ''1'' (Fin 1),
                    qty_row ''r'' ''n/a'' NaN, qty_row ''s'' ''0'' (Fin 0)])
        1 False (Some ''number'')
      = Done (qty_table [qty_row ''s'' ''0'' (Fin 0), qty_row ''q'' ''1'' (Fin 1),
                         qty_row ''p'' ''2'' (Fin 2), qty_row ''r'' ''n/a'' NaN])"
  by (simp add: ties_def sort_defs engine_defs qty_table_def qty_row_def example_host_def Let_def)

text \<open>
  C5, amended: for every table, column index and kind, \<^verbatim>\<open>sortTable\<close> descending gives
  exactly the reversal of what \<^verbatim>\<open>sortTable\<close> ascending gives on the same rows (and raises
  what it raises), not the output of a descending comparator; the ascending result holds
  the same rows. When the comparator is a consistent comparison on the rows (text cells,
  or numbers and dates none of which is \<open>NaN\<close>), the ascending result is in ascending
  order and every group of rows that tie with one another stands in it in its original
  order. When it is not, the ascending order is the runtime's.
\<close>

theorem sortTable_descending_is_reverse:
  "sortTable h t c True k
     = (case sortTable h t c False k of
          Threw e t' \<Rightarrow> Threw e t'
        | Done t' \<Rightarrow> Done (t'\<lparr>tbody := rev (tbody t')\<rparr>))
   \<and> (\<forall>t'. sortTable h t c False k = Done t' \<longrightarrow>
         mset (tbody t') = mset (tbody t)
         \<and> (consistent_on (comparator h c k) (tbody t) \<longrightarrow>
              sorted_wrt (not_after (comparator h c k)) (tbody t')
              \<and> (\<forall>P. (\<forall>a\<in>set (tbody t). \<forall>b\<in>set (tbody t). P a \<and> P b \<longrightarrow> ties h c k a b)
                      \<longrightarrow> filter P (tbody t') = filter P (tbody t))))"
proof -
  have rev: "sortTable h t c True k
     = (case sortTable h t c False k of
          Threw e t' \<Rightarrow> Threw e t'
        | Done t' \<Rightarrow> Done (t'\<lparr>tbody := rev (tbody t')\<rparr>))"
    by (simp add: sortTable_def sorted_rows_def split: sum.splits)
  have asc: "mset (tbody t') = mset (tbody t)
         \<and> (consistent_on (comparator h c k) (tbody t) \<longrightarrow>
              sorted_wrt (not_after (comparator h c k)) (tbody t')
              \<and> (\<forall>P. (\<forall>a\<in>set (tbody t). \<forall>b\<in>set (tbody t). P a \<and> P b \<longrightarrow> ties h c k a b)
                      \<longrightarrow> filter P (tbody t') = filter P (tbody t)))"
    if "sortTable h t c False k = Done t'" for t'
  proof -
    from that have s: "js_sort h (comparator h c k) (tbody t) = Inr (tbody t')"
      by (auto simp: sortTable_def sorted_rows_def split: sum.splits)
    have ordered: "sorted_wrt (not_after (comparator h c k)) (tbody t')
              \<and> (\<forall>P. (\<forall>a\<in>set (tbody t). \<forall>b\<in>set (tbody t). P a \<and> P b \<longrightarrow> ties h c k a b)
                      \<longrightarrow> filter P (tbody t') = filter P (tbody t))"
      if c: "consistent_on (comparator h c k) (tbody t)"
    proof -
      from s c have st: "stable_sort (comparator h c k) (tbody t) = Inr (tbody t')"
        by (simp add: js_sort_consistent)
      have "filter P (tbody t') = filter P (tbody t)"
        if "\<forall>a\<in>set (tbody t). \<forall>b\<in>set (tbody t). P a \<and> P b \<longrightarrow> ties h c k a b" for P
        using that by (intro stable_sort_filter [OF st]) (simp add: ties_not_after)
      with stable_sort_sorted [OF c subset_refl st] show ?thesis by simp
    qed
    with js_sort_mset [OF s] show ?thesis by simp
  qed
  from rev asc show ?thesis by blast
qed

text \<open>
  Rows \<^verbatim>\<open>b\<close>, \<^verbatim>\<open>a\<close>, \<^verbatim>\<open>B\<close> by the text column: \<^verbatim>\<open>b\<close> and \<^verbatim>\<open>B\<close> tie and keep their order
  ascending; descending they come out as \<^verbatim>\<open>B\<close>, \<^verbatim>\<open>b\<close>. Rows 2, 1, 1.0, 0 by the numeric
  column: ascending 0, 1, 1.0, 2, descending 2, 1.0, 1, 0.
\<close>

theorem sortTable_descending_is_reverse_witness:
  "consistent_on (comparator example_host 0 None)
     [text_row [''b'', ''1''], text_row [''a'', ''2''], text_row [''B'', ''3'']]
   \<and> ties example_host 0 None (text_row [''b'', ''1'']) (text_row [''B'', ''3''])
   \<and> sortTable example_host
        (example_table [text_row [''b'', ''1''], text_row [''a'', ''2''], text_row [''B'', ''3'']]) 0 False None
     = Done (example_table [text_row [''a'', ''2''], text_row [''b'', ''1''], text_row [''B'', ''3'']])
   \<and> sortTable example_host
        (example_table [text_row [''b'', ''1''], text_row [''a'', ''2''], text_row [''B'', ''3'']]) 0 True None
     = Done (example_table [text_row [''B'', ''3''], text_row [''b'', ''1''], text_row [''a'', ''2'']])
   \<and> consistent_on (comparator example_host 1 (Some ''number''))
        [qty_row ''p'' ''2'' (Fin 2), qty_row ''q'' ''1'' (Fin 1), qty_row ''r'' ''1.0'' (Fin 1),
         qty_row ''s'' ''0'' (Fin 0)]
   \<and> sortTable example_host
        (qty_table [qty_row ''p'' ''2'' (Fin 2), qty_row ''q'' ''1'' (Fin 1),
                    qty_row ''r'' ''1.0'' (Fin 1), qty_row ''s'' ''0'' (Fin 0)])
        1 False (Some ''number'')
     = Done (qty_table [qty_row ''s'' ''0'' (Fin 0), qty_row ''q'' ''1'' (Fin 1),
                        qty_row ''r'' ''1.0'' (Fin 1), qty_row ''p'' ''2'' (Fin 2)])
   \<and> sortTable example_host
        (qty_table [qty_row ''p'' ''2'' (Fin 2), qty_row ''q'' ''1'' (Fin 1),
                    qty_row ''r'' ''1.0'' (Fin 1), qty_row ''s'' ''0'' (Fin 0)])
        1 True (Some ''number'')
     = Done (qty_table [qty_row ''p'' ''2'' (Fin 2), qty_row ''r'' ''1.0'' (Fin 1),
                        qty_row ''q'' ''1'' (Fin 1), qty_row ''s'' ''0'' (Fin 0)])"
proof -
  let ?rows = "[text_row [''b'', ''1''], text_row [''a'', ''2''], text_row [''B'', ''3'']]"
  let ?nums = "[qty_row ''p'' ''2'' (Fin 2), qty_row ''q'' ''1'' (Fin 1), qty_row ''r'' ''1.0'' (Fin 1),
         qty_row ''s'' ''0'' (Fin 0)]"
  have c1: "consistent_on (comparator example_host 0 None) ?rows"
    by (simp add: comparator_def numeric_kind_def text_compare_consistent datum_def text_row_def)
  have c2: "consistent_on (comparator example_host 1 (Some ''number'')) ?nums"
    by (simp add: comparator_def numeric_kind_def numeric_compare_consistent datum_def qty_row_def)
  have tie: "ties example_host 0 None (text_row [''b'', ''1'']) (text_row [''B'', ''3''])"
    by (simp add: ties_def sort_defs text_row_def example_host_def ascii_upper_def)
  have s1: "stable_sort (comparator example_host 0 None) ?rows
      = Inr [text_row [''a'', ''2''], text_row [''b'', ''1''], text_row [''B'', ''3'']]"
    by (simp add: sort_defs text_row_def example_host_def ascii_upper_def)
  have s2: "stable_sort (comparator example_host 1 (Some ''number'')) ?nums
      = Inr [qty_row ''s'' ''0'' (Fin 0), qty_row ''q'' ''1'' (Fin 1), qty_row ''r'' ''1.0'' (Fin 1),
             qty_row ''p'' ''2'' (Fin 2)]"
    by (simp add: sort_defs qty_row_def)
  have asc1: "sortTable example_host (example_table ?rows) 0 False None
     = Done (example_table [text_row [''a'', ''2''], text_row [''b'', ''1''], text_row [''B'', ''3'']])"
    using js_sort_consistent [OF c1, of example_host] s1
    by (simp add: sortTable_def sorted_rows_def example_table_def)
  have asc2: "sortTable example_host (qty_table ?nums) 1 False (Some ''number'')
     = Done (qty_table [qty_row ''s'' ''0'' (Fin 0), qty_row ''q'' ''1'' (Fin 1),
                        qty_row ''r'' ''1.0'' (Fin 1), qty_row ''p'' ''2'' (Fin 2)])"
    using js_sort_consistent [OF c2, of example_host] s2
    by (simp add: sortTable_def sorted_rows_def qty_table_def)
  from sortTable_descending_is_reverse [of example_host "example_table ?rows" 0 None] asc1
  have desc1: "sortTable example_host (example_table ?rows) 0 True None
     = Done (example_table [text_row [''B'', ''3''], text_row [''b'', ''1''], text_row [''a'', ''2'']])"
    by (simp add: example_table_def)
  from sortTable_descending_is_reverse [of example_host "qty_table ?nums" 1 "Some ''number''"] asc2
  have desc2: "sortTable example_host (qty_table ?nums) 1 True (Some ''number'')
     = Done (qty_table [qty_row ''p'' ''2'' (Fin 2), qty_row ''r'' ''1.0'' (Fin 1),
                        qty_row ''q'' ''1'' (Fin 1), qty_row ''s'' ''0'' (Fin 0)])"
    by (simp add: qty_table_def)
  from c1 c2 tie asc1 asc2 desc1 desc2 show ?thesis by simp
qed

subsection \<open>The numeric comparator\<close>

lemma js_minus_NaN_right: "js_minus x NaN = NaN"
  by (cases x) simp_all

lemma stable_insert_total:
  "(\<And>a b. \<exists>v. cmp a b = Inr v) \<Longrightarrow> \<exists>r. stable_insert cmp x ys = Inr r"
proof (induction ys)
  case Nil
  then show ?case by simp
next
  case (Cons y ys)
  from Cons.prems obtain v where "cmp x y = Inr v" by blast
  moreover from Cons obtain r where "stable_insert cmp x ys = Inr r" by blast
  ultimately show ?case by simp
qed

lemma stable_sort_total:
  "(\<And>a b. \<exists>v. cmp a b = Inr v) \<Longrightarrow> \<exists>r. stable_sort cmp xs = Inr r"
proof (induction xs)
  case Nil
  then show ?case by simp
next
  case (Cons x xs)
  then obtain s where "stable_sort cmp xs = Inr s" by blast
  moreover from Cons.prems obtain r where "stable_insert cmp x s = Inr r"
    using stable_insert_total [of cmp x s] by blast
  ultimately show ?case by simp
qed

lemma js_sort_total:
  "(\<And>a b. \<exists>v. cmp a b = Inr v) \<Longrightarrow> \<exists>r. js_sort h cmp xs = Inr r"
  using stable_sort_total [of cmp xs] by (auto simp: js_sort_def)

text \<open>
  C6: under the comparator of the kinds \<^verbatim>\<open>bool\<close>, \<^verbatim>\<open>number\<close>, \<^verbatim>\<open>amount\<close> and \<^verbatim>\<open>date\<close>, a row
  whose value in the column is \<open>NaN\<close> as a number (an unparseable number, an invalid date,
  a missing cell) ties with every row, such rows included: the comparator returns \<open>NaN\<close>,
  neither less-than nor greater-than. Sorting any rows under that comparator, in either
  direction, raises nothing and returns the same rows.
\<close>

theorem numeric_comparator_never_throws:
  assumes "numeric_kind k"
  shows "(to_number h (datum a c) = NaN \<or> to_number h (datum b c) = NaN \<longrightarrow>
           comparator h c k a b = Inr NaN \<and> ties h c k a b)
         \<and> (\<exists>t'. sortTable h t c d k = Done t' \<and> mset (tbody t') = mset (tbody t))"
proof -
  have cmp: "comparator h c k = numeric_compare h c"
    using assms by (simp add: comparator_def)
  have tie: "comparator h c k a b = Inr NaN \<and> ties h c k a b"
    if "to_number h (datum a c) = NaN \<or> to_number h (datum b c) = NaN"
    using that by (auto simp: cmp ties_def numeric_compare_def js_minus_NaN_right)
  obtain r where r: "js_sort h (comparator h c k) (tbody t) = Inr r"
    using js_sort_total [of "comparator h c k" h "tbody t"]
    by (auto simp: cmp numeric_compare_def)
  then have "sortTable h t c d k = Done (t\<lparr>tbody := if d then rev r else r\<rparr>)"
    by (simp add: sortTable_def sorted_rows_def)
  moreover have "mset (if d then rev r else r) = mset (tbody t)"
    using js_sort_mset [OF r] by simp
  ultimately show ?thesis using tie by simp
qed

text \<open>
  The rows of the example table by their numeric column: \<^verbatim>\<open>n/a\<close> is \<open>NaN\<close>, it ties with 1,
  with 2 and with itself, and the sort returns without raising.
\<close>

theorem numeric_comparator_never_throws_witness:
  "numeric_kind (Some ''number'')
   \<and> to_number example_host (datum (qty_row ''a'' ''n/a'' NaN) 1) = NaN
   \<and> ties example_host 1 (Some ''number'') (qty_row ''a'' ''n/a'' NaN) (qty_row ''B'' ''1'' (Fin 1))
   \<and> ties example_host 1 (Some ''number'') (qty_row ''b'' ''2'' (Fin 2)) (qty_row ''a'' ''n/a'' NaN)
   \<and> ties example_host 1 (Some ''number'') (qty_row ''a'' ''n/a'' NaN) (qty_row ''a'' ''n/a'' NaN)
   \<and> sortTable example_host
        (qty_table [qty_row ''b'' ''2'' (Fin 2), qty_row ''a'' ''n/a'' NaN, qty_row ''B'' ''1'' (Fin 1)])
        1 False (Some ''number'')
      = Done (qty_table [qty_row ''b'' ''2'' (Fin 2), qty_row ''a'' ''n/a'' NaN, qty_row ''B'' ''1'' (Fin 1)])"
proof -
  have k: "numeric_kind (Some ''number'')"
    by (simp add: numeric_kind_def)
  have n: "to_number example_host (datum (qty_row ''a'' ''n/a'' NaN) 1) = NaN"
    by (simp add: datum_def qty_row_def)
  note t = numeric_comparator_never_throws [OF k, of example_host]
  have "sortTable example_host
        (qty_table [qty_row ''b'' ''2'' (Fin 2), qty_row ''a'' ''n/a'' NaN, qty_row ''B'' ''1'' (Fin 1)])
        1 False (Some ''number'')
      = Done (qty_table [qty_row ''b'' ''2'' (Fin 2), qty_row ''a'' ''n/a'' NaN, qty_row ''B'' ''1'' (Fin 1)])"
    by (simp add: sort_defs engine_defs qty_table_def qty_row_def example_host_def Let_def)
  with k n t [of "qty_row ''a'' ''n/a'' NaN" 1 "qty_row ''B'' ''1'' (Fin 1)"]
    t [of "qty_row ''b'' ''2'' (Fin 2)" 1 "qty_row ''a'' ''n/a'' NaN"]
    t [of "qty_row ''a'' ''n/a'' NaN" 1 "qty_row ''a'' ''n/a'' NaN"]
  show ?thesis by simp
qed

subsection \<open>The sort applied on a reload\<close>

text \<open>The walk over the header row, started at index \<open>n\<close> with any sort in hand.\<close>

lemma sort_choice_from:
  "foldl (\<lambda>(sort_col, sort_desc) (i, th).
              case stored of
                Some (form_sort_col, form_sort_desc, form_sort_title) \<Rightarrow>
                  if form_sort_col = i \<and> form_sort_title = htext th
                  then (form_sort_col, form_sort_desc) else (sort_col, sort_desc)
              | None \<Rightarrow> (sort_col, sort_desc)) acc (enumerate n heads)
   = (case stored of
        Some (c, d, title) \<Rightarrow>
          if n \<le> c \<and> c < n + length heads \<and> htext (heads ! (c - n)) = title then (c, d) else acc
      | None \<Rightarrow> acc)"
proof (induction heads arbitrary: n acc)
  case Nil
  then show ?case by (auto split: option.splits)
next
  case (Cons th heads)
  show ?case
  proof (cases stored)
    case None
    then show ?thesis using Cons.IH by (cases acc) simp
  next
    case (Some st)
    obtain c d title where st: "st = (c, d, title)" by (cases st) auto
    obtain a1 a2 where acc: "acc = (a1, a2)" by (cases acc) auto
    show ?thesis
      using Some st acc Cons.IH [where n = "Suc n"]
      by (auto simp: nth_Cons' Suc_diff_Suc not_less_eq_eq)
  qed
qed

text \<open>
  C8: on every reload the sort the success handler uses is the stored SortState if its
  column index and its header label are those of the header cell at that index of the
  fresh table, and the configured \<^verbatim>\<open>init_sort_col\<close> and \<^verbatim>\<open>init_sort_desc\<close> otherwise. When
  the handler runs to its end, the rows shown are the rows of the table (as the callback
  left it) sorted with that choice, the header cell of that index carries its marker,
  and the stored SortState is what it was.
\<close>

theorem reload_sort_choice:
  fixes h cfg s t
  defines "used \<equiv> reload_sort_spec cfg (sort_state s) (f_head t)"
    and "shown \<equiv> (case callback cfg of
                     None \<Rightarrow> materialize h cfg (dl_url s) t
                   | Some f \<Rightarrow> f (materialize h cfg (dl_url s) t))"
  shows "sort_choice cfg (sort_state s) (f_head t) = used
    \<and> (\<forall>s'. success h cfg fieldsObj (t # ts) s = Done s' \<longrightarrow>
          sort_state s' = sort_state s
          \<and> (\<exists>rows. sorted_rows h (tbody shown) (fst used) (snd used)
                        (class_at (map hclass (f_head t)) (fst used)) = Inr rows
                \<and> div_elem s' = Shown (mark_header (shown\<lparr>tbody := rows\<rparr>) (fst used)
                                         (if snd used then ''desc'' else ''asc''))))"
proof -
  have choice: "sort_choice cfg (sort_state s) (f_head t) = used"
    unfolding sort_choice_def sort_choice_from used_def reload_sort_spec_def
    by (auto split: option.splits)
  obtain col desc where used: "used = (col, desc)" by (cases used) auto
  have "sort_state s' = sort_state s
          \<and> (\<exists>rows. sorted_rows h (tbody shown) col desc (class_at (map hclass (f_head t)) col) = Inr rows
                \<and> div_elem s' = Shown (mark_header (shown\<lparr>tbody := rows\<rparr>) col (if desc then ''desc'' else ''asc'')))"
    if "success h cfg fieldsObj (t # ts) s = Done s'" for s'
    using that
    by (auto simp: success_def choice used sortTable_def shown_def Let_def
        split: outcome.splits sum.splits option.splits)
  with choice used show ?thesis by simp
qed

text \<open>
  The example table reloaded with the configured sort (column 0, ascending): a stored
  sort of column 0, descending, is used when its label is \<^verbatim>\<open>Name\<close>, and the rows come out
  descending; with another label, or an index the table does not have, or nothing
  stored, the configured sort is used.
\<close>

theorem reload_sort_choice_witness:
  "sort_choice example_config (Some (0, True, ''Name'')) (f_head example_html) = (0, True)
   \<and> sort_choice example_config (Some (0, True, ''Title'')) (f_head example_html) = (0, False)
   \<and> sort_choice example_config (Some (2, True, ''Name'')) (f_head example_html) = (0, False)
   \<and> sort_choice example_config None (f_head example_html) = (0, False)
   \<and> success example_host example_config [(''a'', ''1'')] [example_html]
        (example_form\<lparr>sort_state := Some (0, True, ''Name'')\<rparr>)
     = Done (example_form\<lparr>sort_state := Some (0, True, ''Name''), last_submit := [(''a'', ''1'')],
          div_elem := Shown
            \<lparr>tclasses = [''websheet''],
             caption = download_span example_config ''https://x/r/a:1/table.xls'',
             headers = [\<lparr>label = ''Name'', hclasses = [''desc''], className = None\<rparr>,
                        \<lparr>label = ''Qty'', hclasses = [''number''], className = Some ''number''\<rparr>],
             tbody = [qty_row ''B'' ''1'' (Fin 1), qty_row ''b'' ''2'' (Fin 2),
                      qty_row ''a'' ''n/a'' NaN]\<rparr>\<rparr>)"
proof -
  have shown: "success example_host example_config [(''a'', ''1'')] [example_html]
        (example_form\<lparr>sort_state := Some (0, True, ''Name'')\<rparr>)
     = Done (example_form\<lparr>sort_state := Some (0, True, ''Name''), last_submit := [(''a'', ''1'')],
          div_elem := Shown
            \<lparr>tclasses = [''websheet''],
             caption = download_span example_config ''https://x/r/a:1/table.xls'',
             headers = [\<lparr>label = ''Name'', hclasses = [''desc''], className = None\<rparr>,
                        \<lparr>label = ''Qty'', hclasses = [''number''], className = Some ''number''\<rparr>],
             tbody = [qty_row ''B'' ''1'' (Fin 1), qty_row ''b'' ''2'' (Fin 2),
                      qty_row ''a'' ''n/a'' NaN]\<rparr>\<rparr>)"
    by (simp add: success_def sort_choice_def sort_defs engine_defs mat_defs mark_header_def
        example_html_def qty_row_def num_defs form_defs enumerate_eq_zip Let_def example_host_def
        ascii_upper_def)
  from reload_sort_choice [of example_config "example_form\<lparr>sort_state := Some (0, True, ''Name'')\<rparr>" example_html]
    reload_sort_choice [of example_config "example_form\<lparr>sort_state := Some (0, True, ''Title'')\<rparr>" example_html]
    reload_sort_choice [of example_config "example_form\<lparr>sort_state := Some (2, True, ''Name'')\<rparr>" example_html]
    reload_sort_choice [of example_config "example_form\<lparr>sort_state := None\<rparr>" example_html]
  have "sort_choice example_config (Some (0, True, ''Name'')) (f_head example_html) = (0, True)
   \<and> sort_choice example_config (Some (0, True, ''Title'')) (f_head example_html) = (0, False)
   \<and> sort_choice example_config (Some (2, True, ''Name'')) (f_head example_html) = (0, False)
   \<and> sort_choice example_config None (f_head example_html) = (0, False)"
    by (simp add: reload_sort_spec_def example_html_def form_defs)
  with shown show ?thesis by simp
qed

subsection \<open>getState before the first answer\<close>

lemma step_keeps_last_submit:
  "\<not> is_Success ev \<Longrightarrow> last_submit (step h cfg widgets s ev) = last_submit s"
proof (cases ev)
  case Submit
  then show ?thesis by (simp add: step_def submit_def split: outcome.splits)
next
  case (Success fieldsObj tables)
  assume "\<not> is_Success ev"
  with Success show ?thesis by simp
next
  case Failure
  then show ?thesis by (simp add: step_def error_handler_def)
next
  case (Click i)
  then show ?thesis
    by (simp add: step_def header_click_def Let_def split: display.splits outcome.splits)
next
  case (SetState data)
  then show ?thesis
    by (simp add: step_def setState_def submit_def Let_def split: prod.splits outcome.splits)
qed

lemma run_keeps_last_submit:
  "\<not> list_ex is_Success evs \<Longrightarrow> last_submit (run h cfg widgets s evs) = last_submit s"
  unfolding run_def
  by (induction evs arbitrary: s) (simp_all add: step_keeps_last_submit)

text \<open>
  C10: from the initialisation of a form on, as long as no request has been answered
  with success, \<^verbatim>\<open>getState\<close> returns the empty object, whatever submissions, failed
  fetches, clicks and \<^verbatim>\<open>setState\<close> calls have happened; it is a plain read and raises
  nothing, and it is not the live values of the controls.
\<close>

theorem getState_before_first_success:
  assumes "websheet a data_filename_format data_source ctrls = Inr (cfg, s0)"
    and "\<not> list_ex is_Success evs"
  shows "getState (run h cfg widgets s0 evs) = []"
proof -
  from assms(1) have "last_submit s0 = []"
    by (auto simp: websheet_def split: option.splits)
  with run_keeps_last_submit [OF assms(2)] show ?thesis
    by (simp add: getState_def)
qed

text \<open>
  The example form, submitted, its fetch failed, then set to \<^verbatim>\<open>{a: "2"}\<close>: the input holds
  \<^verbatim>\<open>2\<close> and \<^verbatim>\<open>getState\<close> still returns the empty object.
\<close>

theorem getState_before_first_success_witness:
  "websheet None (Some ''table'') (Some ''https://x/r'') (inputs example_form)
     = Inr (example_config, example_form\<lparr>dl_url := ''https://x/rtable.xls'', div_elem := Blank\<rparr>)
   \<and> \<not> list_ex is_Success [Submit, Failure, SetState [(''a'', ''2'')]]
   \<and> getState (run example_host example_config []
                 (example_form\<lparr>dl_url := ''https://x/rtable.xls'', div_elem := Blank\<rparr>)
                 [Submit, Failure, SetState [(''a'', ''2'')]]) = []
   \<and> map cval (inputs (run example_host example_config []
                 (example_form\<lparr>dl_url := ''https://x/rtable.xls'', div_elem := Blank\<rparr>)
                 [Submit, Failure, SetState [(''a'', ''2'')]])) = [''2'']"
proof -
  have init: "websheet None (Some ''table'') (Some ''https://x/r'') (inputs example_form)
     = Inr (example_config, example_form\<lparr>dl_url := ''https://x/rtable.xls'', div_elem := Blank\<rparr>)"
    by (simp add: websheet_def read_args_def split_format_def is_alnum_def is_digit_def
        extension_def form_defs)
  have evs: "\<not> list_ex is_Success [Submit, Failure, SetState [(''a'', ''2'')]]"
    by simp
  have live: "map cval (inputs (run example_host example_config []
                 (example_form\<lparr>dl_url := ''https://x/rtable.xls'', div_elem := Blank\<rparr>)
                 [Submit, Failure, SetState [(''a'', ''2'')]])) = [''2'']"
    by (simp add: run_def step_def submit_def setState_def error_handler_def url_defs form_defs Let_def)
  from getState_before_first_success [OF init evs, of example_host "[]"] init evs live
  show ?thesis by simp
qed

subsection \<open>The URL of a submission\<close>

lemma fields_loop_url:
  "fst (fields_loop flds (url, obj)) = url @ spec_segments flds"
proof (induction flds arbitrary: url obj)
  case Nil
  then show ?case by (simp add: spec_segments_def)
next
  case (Cons f flds)
  obtain name v where f: "f = (name, v)" by (cases f) auto
  show ?case
    using Cons.IH by (simp add: f spec_segments_def)
qed

lemma map_of_obj_set:
  "k \<noteq> ''__proto__'' \<Longrightarrow> map_of (obj_set obj name v) k = (if k = name then Some v else map_of obj k)"
  by (simp add: obj_set_def update_conv')

lemma fields_loop_obj:
  "k \<noteq> ''__proto__'' \<Longrightarrow>
   map_of (snd (fields_loop flds (url, obj))) k
     = (case map_of (rev flds) k of Some v \<Rightarrow> Some v | None \<Rightarrow> map_of obj k)"
proof (induction flds arbitrary: url obj)
  case Nil
  then show ?case by simp
next
  case (Cons f flds)
  obtain name v where f: "f = (name, v)" by (cases f) auto
  show ?case
    using Cons.IH [OF Cons.prems] Cons.prems
    by (simp add: f map_of_obj_set map_add_def split: option.splits)
qed

lemma format_loop_done:
  "\<forall>chunk\<in>set chunks. obj_get obj chunk \<noteq> Inherited \<Longrightarrow>
   format_loop obj chunks url
     = Done (url @ concat (map (\<lambda>chunk. case map_of obj chunk of
                                            Some v \<Rightarrow> sanitize_value v
                                          | None \<Rightarrow> chunk) chunks))"
proof (induction chunks arbitrary: url)
  case Nil
  then show ?case by simp
next
  case (Cons chunk chunks)
  then show ?case
    by (auto simp: obj_get_def split: option.splits if_splits)
qed

lemma proto_not_alnum: "\<not> list_all is_alnum ''__proto__''"
  by (simp add: is_alnum_def is_digit_def)

lemma proto_inherited: "''__proto__'' \<in> set Object_prototype_names"
  by (simp add: Object_prototype_names_def)

lemma map_of_rev_None: "map_of (rev flds) k = None \<longleftrightarrow> k \<notin> fst ` set flds"
  by (simp add: map_of_eq_None_iff)

text \<open>
  C4 as stated fails on the base URL: the source appends a slash when the last character
  is not one and removes nothing, so a \<^verbatim>\<open>data-source\<close> that ends with two slashes keeps
  both, where the claim has exactly one.
\<close>

theorem fetch_url_counterexample:
  "fetch_url None ''https://x/r//'' ''table'' [] = Done ''https://x/r//table.xls''
   \<and> URL_Builder_spec ''https://x/r//'' [] ''table'' = ''https://x/r/table.xls''
   \<and> fetch_url None ''https://x/r//'' ''table'' [] \<noteq> Done (URL_Builder_spec ''https://x/r//'' [] ''table'')"
  by (simp add: fetch_url_def websheet_def split_format_def url_defs options.extend_def URL_Builder_spec_def
      spec_base_url_def spec_segments_def spec_filename_def)

text \<open>
  C4, amended: the fetch URL is the base URL, with a slash appended when it does not
  already end with one, followed by one sanitized \<^verbatim>\<open>name:value/\<close> segment per field in
  form order (fields with an empty value or a name starting with an underscore give no
  segment), followed by the template with each word-like token replaced by the sanitized
  value of the field of that name, and \<^verbatim>\<open>.xls\<close>. This holds whenever no separator of the
  template is itself the name of a field and no chunk of the template that no field
  bears is a member of \<^verbatim>\<open>Object.prototype\<close>; what the handler does otherwise is left open.
  The fields \<^verbatim>\<open>{year: "2020", _debug: "x"}\<close> with the source \<^verbatim>\<open>https://x/r\<close> and the template
  \<^verbatim>\<open>table_year\<close> give \<^verbatim>\<open>https://x/r/year:2020/table_2020.xls\<close>.
\<close>

theorem fetch_url_shape:
  "((\<forall>chunk\<in>set (split_format template). chunk \<in> fst ` set flds \<longrightarrow> list_all is_alnum chunk)
    \<and> (\<forall>chunk\<in>set (split_format template).
          chunk \<in> set Object_prototype_names \<longrightarrow> chunk \<in> fst ` set flds)
    \<longrightarrow> fetch_url a data_source template flds
        = Done ((if data_source \<noteq> [] \<and> last data_source = CHR ''/'' then data_source
                 else data_source @ ''/'')
                @ spec_segments flds @ spec_filename flds template))
   \<and> fetch_url None ''https://x/r'' ''table_year'' [(''year'', ''2020''), (''_debug'', ''x'')]
       = Done ''https://x/r/year:2020/table_2020.xls''"
proof -
  have shape: "fetch_url a data_source template flds
        = Done ((if data_source \<noteq> [] \<and> last data_source = CHR ''/'' then data_source
                 else data_source @ ''/'')
                @ spec_segments flds @ spec_filename flds template)"
    if seps: "\<forall>chunk\<in>set (split_format template). chunk \<in> fst ` set flds \<longrightarrow> list_all is_alnum chunk"
      and inh: "\<forall>chunk\<in>set (split_format template).
          chunk \<in> set Object_prototype_names \<longrightarrow> chunk \<in> fst ` set flds"
  proof -
    define base where "base = (if data_source \<noteq> [] \<and> last data_source = CHR ''/'' then data_source
                 else data_source @ ''/'')"
    define obj where "obj = snd (fields_loop flds (base, []))"
    have loop: "fields_loop flds (base, []) = (base @ spec_segments flds, obj)"
      using fields_loop_url [of flds base "[]"] by (simp add: obj_def prod_eq_iff)
    have not_proto: "chunk \<noteq> ''__proto__''" if "chunk \<in> set (split_format template)" for chunk
      using that seps inh proto_not_alnum proto_inherited by blast
    have obj: "map_of obj chunk = map_of (rev flds) chunk"
      if "chunk \<in> set (split_format template)" for chunk
      using fields_loop_obj [OF not_proto [OF that], of flds base "[]"]
      by (simp add: obj_def split: option.splits)
    have "\<forall>chunk\<in>set (split_format template). obj_get obj chunk \<noteq> Inherited"
      using obj inh by (auto simp: obj_get_def map_of_rev_None split: option.splits)
    then have "format_loop obj (split_format template) (base @ spec_segments flds)
      = Done (base @ spec_segments flds
              @ concat (map (\<lambda>chunk. case map_of obj chunk of
                                        Some v \<Rightarrow> sanitize_value v
                                      | None \<Rightarrow> chunk) (split_format template)))"
      by (simp add: format_loop_done)
    moreover have "map (\<lambda>chunk. case map_of obj chunk of
                                        Some v \<Rightarrow> sanitize_value v
                                      | None \<Rightarrow> chunk) (split_format template)
      = map (\<lambda>token. if list_all is_alnum token
                           then (case map_of (rev flds) token of
                                   Some v \<Rightarrow> sanitize_value v
                                 | None \<Rightarrow> token)
                           else token) (split_format template)"
    proof (rule map_cong [OF refl])
      fix chunk assume c: "chunk \<in> set (split_format template)"
      show "(case map_of obj chunk of Some v \<Rightarrow> sanitize_value v | None \<Rightarrow> chunk)
        = (if list_all is_alnum chunk
           then (case map_of (rev flds) chunk of Some v \<Rightarrow> sanitize_value v | None \<Rightarrow> chunk)
           else chunk)"
      proof (cases "list_all is_alnum chunk")
        case True
        then show ?thesis by (simp add: obj [OF c])
      next
        case False
        with seps c have "chunk \<notin> fst ` set flds" by blast
        then have "map_of (rev flds) chunk = None" by (simp add: map_of_rev_None)
        with False show ?thesis by (simp add: obj [OF c])
      qed
    qed
    ultimately show ?thesis
      by (simp add: fetch_url_def websheet_def build_url_def loop base_def [symmetric]
          spec_filename_def extension_def options.extend_def)
  qed
  have example: "fetch_url None ''https://x/r'' ''table_year'' [(''year'', ''2020''), (''_debug'', ''x'')]
       = Done ''https://x/r/year:2020/table_2020.xls''"
    by (simp add: fetch_url_def websheet_def split_format_def url_defs options.extend_def)
  from shape example show ?thesis by blast
qed

theorem fetch_url_shape_witness:
  "split_format ''table_year'' = [''table'', ''_'', ''year'']
   \<and> fetch_url None ''https://x/r'' ''table_year'' [(''year'', ''2020''), (''_debug'', ''x'')]
       = Done (''https://x/r/'' @ spec_segments [(''year'', ''2020''), (''_debug'', ''x'')]
               @ spec_filename [(''year'', ''2020''), (''_debug'', ''x'')] ''table_year'')
   \<and> spec_segments [(''year'', ''2020''), (''_debug'', ''x'')] = ''year:2020/''
   \<and> spec_filename [(''year'', ''2020''), (''_debug'', ''x'')] ''table_year'' = ''table_2020.xls''"
proof -
  let ?flds = "[(''year'', ''2020''), (''_debug'', ''x'')]"
  have sp: "split_format ''table_year'' = [''table'', ''_'', ''year'']"
    by (simp add: split_format_def is_alnum_def is_digit_def)
  have seps: "\<forall>chunk\<in>set (split_format ''table_year'').
      chunk \<in> fst ` set ?flds \<longrightarrow> list_all is_alnum chunk"
    by (simp add: sp is_alnum_def is_digit_def)
  have inh: "\<forall>chunk\<in>set (split_format ''table_year'').
      chunk \<in> set Object_prototype_names \<longrightarrow> chunk \<in> fst ` set ?flds"
    by (simp add: sp Object_prototype_names_def)
  have segs: "spec_segments ?flds = ''year:2020/''"
    by (simp add: spec_segments_def url_defs)
  have name: "spec_filename ?flds ''table_year'' = ''table_2020.xls''"
    by (simp add: spec_filename_def sp url_defs)
  from fetch_url_shape [of "''table_year''" ?flds None "''https://x/r''"] seps inh
  have "fetch_url None ''https://x/r'' ''table_year'' ?flds
       = Done (''https://x/r/'' @ spec_segments ?flds @ spec_filename ?flds ''table_year'')"
    by simp
  with sp segs name show ?thesis by simp
qed

subsection \<open>Clicks on a header cell\<close>

lemma addClass_asc: "addClass cls (Some ''asc'') = (if ''asc'' \<in> set cls then cls else cls @ [''asc''])"
  by (simp add: addClass_def is_space_def)

lemma addClass_desc: "addClass cls (Some ''desc'') = (if ''desc'' \<in> set cls then cls else cls @ [''desc''])"
  by (simp add: addClass_def is_space_def)

lemma sortTable_headers: "sortTable h t c d k = Done t' \<Longrightarrow> headers t' = headers t"
  by (auto simp: sortTable_def split: sum.splits)

lemma header_click_done:
  assumes "div_elem s = Shown t" and "i < length (headers t)"
    and "header_click h cfg i s = Done s'"
  shows "\<exists>t'. div_elem s' = Shown t' \<and> length (headers t') = length (headers t)
        \<and> sort_state s' = Some (i, newDesc cfg (headers t ! i), label (headers t ! i))
        \<and> (\<forall>j<length (headers t'). marked (headers t' ! j) \<longleftrightarrow> j = i)
        \<and> hasClass (hclasses (headers t' ! i)) ''desc'' = newDesc cfg (headers t ! i)
        \<and> hasClass (hclasses (headers t' ! i)) ''asc'' = (\<not> newDesc cfg (headers t ! i))"
proof -
  let ?nd = "newDesc cfg (headers t ! i)"
  from assms obtain t1 where
    st: "sortTable h (clear_marks t) i ?nd (className (headers t ! i)) = Done t1"
    and s': "s' = s\<lparr>div_elem := Shown (mark_header t1 i (if ?nd then ''desc'' else ''asc'')),
                    sort_state := Some (i, ?nd, label (headers t ! i))\<rparr>"
    by (auto simp: header_click_def Let_def split: outcome.splits)
  have hs: "headers t1 = map (\<lambda>th. th\<lparr>hclasses := removeClass (hclasses th) [''asc'', ''desc'']\<rparr>) (headers t)"
    using sortTable_headers [OF st] by (simp add: clear_marks_def)
  let ?t' = "mark_header t1 i (if ?nd then ''desc'' else ''asc'')"
  have len: "length (headers ?t') = length (headers t)"
    using hs assms(2) by (simp add: mark_header_def)
  have marks: "marked (headers ?t' ! j) \<longleftrightarrow> j = i" if "j < length (headers ?t')" for j
    using that hs assms(2) len
    by (auto simp: mark_header_def marked_def hasClass_def removeClass_def addClass_asc addClass_desc
        nth_list_update)
  have dir: "hasClass (hclasses (headers ?t' ! i)) ''desc'' = ?nd
        \<and> hasClass (hclasses (headers ?t' ! i)) ''asc'' = (\<not> ?nd)"
    using hs assms(2)
    by (auto simp: mark_header_def hasClass_def removeClass_def addClass_asc addClass_desc)
  from s' len marks dir show ?thesis by auto
qed

lemma filter_only_index:
  assumes "i < length xs" and "\<forall>j<length xs. P (xs ! j) \<longleftrightarrow> j = i"
  shows "filter P xs = [xs ! i]"
proof -
  have xs: "xs = take i xs @ xs ! i # drop (Suc i) xs"
    using assms(1) by (simp add: id_take_nth_drop)
  have "filter P (take i xs) = []"
    using assms by (auto simp: filter_empty_conv in_set_conv_nth)
  moreover have "filter P (drop (Suc i) xs) = []"
    using assms by (auto simp: filter_empty_conv in_set_conv_nth)
  moreover have "P (xs ! i)" using assms by simp
  ultimately have "filter P (take i xs @ xs ! i # drop (Suc i) xs) = [xs ! i]" by simp
  with xs show ?thesis by simp
qed

text \<open>
  Where no click raises, three clicks on a header cell that was not marked sort in the
  configured direction, the opposite one, and the configured one again, and after each
  exactly one header cell is marked.
\<close>

lemma header_click_toggles:
  assumes shown: "div_elem s = Shown t" and i: "i < length (headers t)"
    and inactive: "\<not> marked (headers t ! i)"
    and c1: "header_click h cfg i s = Done s1"
    and c2: "header_click h cfg i s1 = Done s2"
    and c3: "header_click h cfg i s2 = Done s3"
  shows "map (\<lambda>x. map_option (fst \<circ> snd) (sort_state x)) [s1, s2, s3]
           = [Some (init_sort_desc cfg), Some (\<not> init_sort_desc cfg), Some (init_sort_desc cfg)]
         \<and> (\<forall>x\<in>set [s1, s2, s3]. \<exists>t'. div_elem x = Shown t' \<and> length (filter marked (headers t')) = 1)"
proof -
  from header_click_done [OF shown i c1] obtain t1 where
    t1: "div_elem s1 = Shown t1" "length (headers t1) = length (headers t)"
      "sort_state s1 = Some (i, newDesc cfg (headers t ! i), label (headers t ! i))"
      "\<forall>j<length (headers t1). marked (headers t1 ! j) \<longleftrightarrow> j = i"
      "hasClass (hclasses (headers t1 ! i)) ''desc'' = newDesc cfg (headers t ! i)"
      "hasClass (hclasses (headers t1 ! i)) ''asc'' = (\<not> newDesc cfg (headers t ! i))"
    by blast
  have i1: "i < length (headers t1)" using t1(2) i by simp
  from header_click_done [OF t1(1) i1 c2] obtain t2 where
    t2: "div_elem s2 = Shown t2" "length (headers t2) = length (headers t1)"
      "sort_state s2 = Some (i, newDesc cfg (headers t1 ! i), label (headers t1 ! i))"
      "\<forall>j<length (headers t2). marked (headers t2 ! j) \<longleftrightarrow> j = i"
      "hasClass (hclasses (headers t2 ! i)) ''desc'' = newDesc cfg (headers t1 ! i)"
      "hasClass (hclasses (headers t2 ! i)) ''asc'' = (\<not> newDesc cfg (headers t1 ! i))"
    by blast
  have i2: "i < length (headers t2)" using t2(2) i1 by simp
  from header_click_done [OF t2(1) i2 c3] obtain t3 where
    t3: "div_elem s3 = Shown t3" "length (headers t3) = length (headers t2)"
      "sort_state s3 = Some (i, newDesc cfg (headers t2 ! i), label (headers t2 ! i))"
      "\<forall>j<length (headers t3). marked (headers t3 ! j) \<longleftrightarrow> j = i"
    by blast
  have i3: "i < length (headers t3)" using t3(2) i2 by simp
  have d1: "newDesc cfg (headers t ! i) = init_sort_desc cfg"
    using inactive by (auto simp: newDesc_def marked_def Let_def)
  have d2: "newDesc cfg (headers t1 ! i) = (\<not> init_sort_desc cfg)"
    using t1(5,6) d1 by (auto simp: newDesc_def Let_def)
  have d3: "newDesc cfg (headers t2 ! i) = init_sort_desc cfg"
    using t2(5,6) d2 by (auto simp: newDesc_def Let_def)
  have "length (filter marked (headers t1)) = 1"
    using filter_only_index [OF i1 t1(4)] by simp
  moreover have "length (filter marked (headers t2)) = 1"
    using filter_only_index [OF i2 t2(4)] by simp
  moreover have "length (filter marked (headers t3)) = 1"
    using filter_only_index [OF i3 t3(4)] by simp
  ultimately show ?thesis
    using t1(1,3) t2(1,3) t3(1,3) d1 d2 d3 by simp
qed

text \<open>
  C7 says that three clicks on a header cell that was not active sort ascending,
  descending, ascending (from the configured direction), and that after every click
  exactly one header cell carries the marker. The default comparator calls
  \<^verbatim>\<open>.toUpperCase()\<close> on the cell value; a body row with fewer cells than the clicked column
  has none, where the numeric comparator would read a tie. On the table below, shown by
  the success handler, the click on the second header cell raises a TypeError after the
  markers were cleared and the rows detached: no header cell is marked, the body is
  empty and no sort is stored.
\<close>

theorem header_click_ragged:
  "success example_host example_config [] [ragged_html] example_form
     = Done (example_form\<lparr>div_elem := Shown (ragged_shown [''asc''] [text_row [''x''], text_row [''y'']])\<rparr>)
   \<and> header_click example_host example_config 1
        (example_form\<lparr>div_elem := Shown (ragged_shown [''asc''] [text_row [''x''], text_row [''y'']])\<rparr>)
     = Threw TypeError (example_form\<lparr>div_elem := Shown (ragged_shown [] [])\<rparr>)"
  by (simp add: success_def header_click_def sort_choice_def sort_defs engine_defs mat_defs
      mark_header_def clear_marks_def removeClass_def newDesc_def hasClass_def
      ragged_html_def ragged_shown_def text_row_def form_defs enumerate_eq_zip Let_def
      example_host_def ascii_upper_def)

end
